theory Spec2Isabelle
  imports Main
begin

section \<open>Errors and log entries\<close>

text \<open>
  A Go \<open>error\<close> is an opaque value. The client never looks inside one, so three kinds are
  enough: the daemon's "no such object" answer, any other failure of a call, and the error
  that \<open>StopContainer\<close> builds itself with \<open>fmt.Errorf\<close> (kept as its format string and
  its \<open>%s\<close> arguments).
\<close>

datatype error =
    ErrNotFound string
  | ErrDaemon string
  | Errorf string "string list"

fun IsErrNotFound :: "error \<Rightarrow> bool" where
  "IsErrNotFound (ErrNotFound _) = True"
| "IsErrNotFound _ = False"

datatype level = DebugLevel | InfoLevel | ErrorLevel

datatype fmtarg = ArgStr string | ArgInt int | ArgErr error

section \<open>The data of the Docker API that the client reads or sends\<close>

record EndpointSettings =
  Aliases :: "string list"
  NetworkID :: string
  IPAddress :: string

record NetworkingConfig =
  EndpointsConfig :: "string \<rightharpoonup> EndpointSettings"

record HostConfig =
  AutoRemove :: bool
  NetworkMode :: string

record Config =
  Image :: string
  Cmd :: "string list"
  Env :: "string list"

record ContainerState =
  Running :: bool

record NetworkSettings =
  Networks :: "string \<rightharpoonup> EndpointSettings"

record ContainerJSON =
  State :: ContainerState
  HostConfig :: HostConfig
  NetworkSettings :: NetworkSettings

record ImageInspect =
  ID :: string
  RepoDigests :: "string list"

record ContainerRemoveOptions =
  Force :: bool
  RemoveVolumes :: bool

record ContainerCreateCreatedBody =
  ID :: string

datatype PrivilegeFunc = DefaultAuthHandler

record ImagePullOptions =
  RegistryAuth :: string
  PrivilegeFunc :: "PrivilegeFunc option"

record ExecConfig =
  Tty :: bool
  AttachStderr :: bool
  AttachStdout :: bool
  Detach :: bool
  Cmd :: "string list"

record ExecStartCheck =
  Detach :: bool
  Tty :: bool

record IDResponse =
  ID :: string

record ContainerExecInspect =
  ExitCode :: int

text \<open>
  In Go the fields \<open>State\<close>, \<open>HostConfig\<close> and \<open>NetworkSettings\<close> of an inspection answer
  are pointers. The daemon sets them in every answer it gives, so they are values here.
  Streams handed out by the daemon are handles; reading them is a call of its own.
\<close>

datatype ReadCloser = ReadCloser nat

datatype HijackedResponse = HijackedResponse nat

text \<open>\<open>NetworkMode.IsHost\<close> of the Docker API types.\<close>

definition IsHost :: "string \<Rightarrow> bool" where
  "IsHost n = (n = ''host'')"

section \<open>The Container snapshot\<close>

text \<open>
  Modelled from the spec: the declaration of \<open>Container\<close> and of its accessor methods
  (\<open>ID\<close>, \<open>Name\<close>, \<open>StopSignal\<close>, \<open>ImageName\<close>, \<open>runtimeConfig\<close>, \<open>hostConfig\<close>) is in a
  file that is not among the sources. The client builds a \<open>Container\<close> from the two
  inspection results (line 96) and reads them as the fields \<open>containerInfo\<close> and
  \<open>imageInfo\<close>. By the specification a \<open>Container\<close> is an immutable snapshot, so each
  accessor is a pure function of it: the snapshot carries the value each one returns, and
  the client functions below are parametric in them. Both inspection results are present in
  every snapshot that \<open>GetContainer\<close> builds, so they are values here and not pointers.
\<close>

record Container =
  containerInfo :: ContainerJSON
  imageInfo :: ImageInspect
  ID :: string
  Name :: string
  StopSignal :: string
  ImageName :: string
  runtimeConfig :: Config
  hostConfig :: HostConfig

section \<open>The daemon and the other collaborators\<close>

text \<open>
  Everything the client calls is outside it: the Docker daemon behind \<open>client.api\<close>, the
  registry credential lookup \<open>EncodedAuth\<close> (a function of the repository that is not among
  the sources, taken as a parameter like the daemon), the two response streams, and the
  clock. They
  are one deterministic transition system over a state of any type \<open>'s\<close>: each call takes
  the current state and returns its answer with the next state. Nothing is assumed about
  the answers, so a theorem about all values of this record is a theorem about every
  daemon, every registry and every timing.

  \<open>polls\<close> is the clock. \<open>waitForStop\<close> starts a timer with \<open>time.After\<close> and, on each turn
  of its loop, first looks whether the timer has fired. \<open>polls t s\<close> is the number of turns
  that find the timer not yet fired when it was started in state \<open>s\<close> with duration \<open>t\<close>.
  The loop sleeps one second per turn and the timer does fire, so this number is finite.
\<close>

record 's API =
  ContainerKill :: "string \<Rightarrow> string \<Rightarrow> 's \<Rightarrow> error option \<times> 's"
  ContainerInspect :: "string \<Rightarrow> 's \<Rightarrow> (error + ContainerJSON) \<times> 's"
  ContainerRemove :: "string \<Rightarrow> ContainerRemoveOptions \<Rightarrow> 's \<Rightarrow> error option \<times> 's"
  ContainerCreate :: "Config \<Rightarrow> HostConfig \<Rightarrow> NetworkingConfig \<Rightarrow> string \<Rightarrow> 's
                      \<Rightarrow> (error + ContainerCreateCreatedBody) \<times> 's"
  NetworkDisconnect :: "string \<Rightarrow> string \<Rightarrow> bool \<Rightarrow> 's \<Rightarrow> error option \<times> 's"
  NetworkConnect :: "string \<Rightarrow> string \<Rightarrow> EndpointSettings \<Rightarrow> 's \<Rightarrow> error option \<times> 's"
  ContainerStart :: "string \<Rightarrow> 's \<Rightarrow> error option \<times> 's"
  ImagePull :: "string \<Rightarrow> ImagePullOptions \<Rightarrow> 's \<Rightarrow> (error + ReadCloser) \<times> 's"
  ImageInspectWithRaw :: "string \<Rightarrow> 's \<Rightarrow> (error + ImageInspect) \<times> 's"
  ContainerExecCreate :: "string \<Rightarrow> ExecConfig \<Rightarrow> 's \<Rightarrow> (error + IDResponse) \<times> 's"
  ContainerExecAttach :: "string \<Rightarrow> ExecConfig \<Rightarrow> 's \<Rightarrow> (error + HijackedResponse) \<times> 's"
  ContainerExecStart :: "string \<Rightarrow> ExecStartCheck \<Rightarrow> 's \<Rightarrow> error option \<times> 's"
  ContainerExecInspect :: "string \<Rightarrow> 's \<Rightarrow> (error + ContainerExecInspect) \<times> 's"
  EncodedAuth :: "string \<Rightarrow> 's \<Rightarrow> (error + string) \<times> 's"
  ReadAll :: "ReadCloser \<Rightarrow> 's \<Rightarrow> (string \<times> error option) \<times> 's"
  Close :: "ReadCloser \<Rightarrow> 's \<Rightarrow> unit \<times> 's"
  ReadFrom :: "HijackedResponse \<Rightarrow> 's \<Rightarrow> (string \<times> error option) \<times> 's"
  CloseHijacked :: "HijackedResponse \<Rightarrow> 's \<Rightarrow> unit \<times> 's"
  polls :: "int \<Rightarrow> 's \<Rightarrow> nat"

record 's dockerClient =
  api :: "'s API"
  pullImages :: bool

section \<open>What a run does: the trace\<close>

text \<open>
  A run is observed through the list of its effects in the order they happen: every call
  with its arguments and its answer, and every log entry with its level, format string
  and arguments.
\<close>

datatype event =
    EvContainerKill string string "error option"
  | EvContainerInspect string "error + ContainerJSON"
  | EvContainerRemove string ContainerRemoveOptions "error option"
  | EvContainerCreate Config HostConfig NetworkingConfig string
      "error + ContainerCreateCreatedBody"
  | EvNetworkDisconnect string string bool "error option"
  | EvNetworkConnect string string EndpointSettings "error option"
  | EvContainerStart string "error option"
  | EvImagePull string ImagePullOptions "error + ReadCloser"
  | EvImageInspectWithRaw string "error + ImageInspect"
  | EvContainerExecCreate string ExecConfig "error + IDResponse"
  | EvContainerExecAttach string ExecConfig "error + HijackedResponse"
  | EvContainerExecStart string ExecStartCheck "error option"
  | EvContainerExecInspect string "error + ContainerExecInspect"
  | EvEncodedAuth string "error + string"
  | EvReadAll ReadCloser "string \<times> error option"
  | EvClose ReadCloser unit
  | EvReadFrom HijackedResponse "string \<times> error option"
  | EvCloseHijacked HijackedResponse unit
  | Log level string "fmtarg list"

record 's world =
  daemon :: 's
  trace :: "event list"

definition init :: "'s \<Rightarrow> 's world" where
  "init s = \<lparr>daemon = s, trace = []\<rparr>"

definition call :: "('s \<Rightarrow> 'r \<times> 's) \<Rightarrow> ('r \<Rightarrow> event) \<Rightarrow> 's world \<Rightarrow> 'r \<times> 's world" where
  "call f ev w =
     (case f (daemon w) of (r, s') \<Rightarrow> (r, \<lparr>daemon = s', trace = trace w @ [ev r]\<rparr>))"

definition logf :: "level \<Rightarrow> string \<Rightarrow> fmtarg list \<Rightarrow> 's world \<Rightarrow> 's world" where
  "logf lvl fmt args w = \<lparr>daemon = daemon w, trace = trace w @ [Log lvl fmt args]\<rparr>"

section \<open>The Shutdown Sequencer: \<open>waitForStop\<close> and \<open>StopContainer\<close>\<close>

definition defaultStopSignal :: string where
  "defaultStopSignal = ''SIGTERM''"

text \<open>
  The loop of \<open>waitForStop\<close>, by the number of turns left before the timer is seen fired.
  With none left the \<open>timeout\<close> case is taken and the result is \<open>nil\<close>. Otherwise the
  container is inspected: an inspection error of any kind is returned, a container that is
  not running ends the wait with \<open>nil\<close>, and a running one leads to the next turn.
\<close>

fun waitForStop_loop :: "'s dockerClient \<Rightarrow> Container \<Rightarrow> nat \<Rightarrow> 's world \<Rightarrow> error option \<times> 's world" where
  "waitForStop_loop client c 0 w = (None, w)"
| "waitForStop_loop client c (Suc n) w =
     (case call (ContainerInspect (api client) (Container.ID c)) (EvContainerInspect (Container.ID c)) w of
        (Inl err, w1) \<Rightarrow> (Some err, w1)
      | (Inr ci, w1) \<Rightarrow>
          if \<not> Running (State ci) then (None, w1)
          else waitForStop_loop client c n w1)"

definition waitForStop :: "'s dockerClient \<Rightarrow> Container \<Rightarrow> int \<Rightarrow> 's world \<Rightarrow> error option \<times> 's world" where
  "waitForStop client c waitTime w =
     waitForStop_loop client c (polls (api client) waitTime (daemon w)) w"

text \<open>Lines 116 to 124 of \<open>StopContainer\<close>: the removal, or its omission for auto-remove.\<close>

definition removeUnlessAutoRemove :: "'s dockerClient \<Rightarrow> Container \<Rightarrow> 's world \<Rightarrow> error option \<times> 's world" where
  "removeUnlessAutoRemove client c w =
     (if AutoRemove (HostConfig (containerInfo c)) then
        (None, logf DebugLevel ''AutoRemove container %s, skipping ContainerRemove call.''
                 [ArgStr (Container.ID c)] w)
      else
        (let opts = \<lparr>Force = True, RemoveVolumes = False\<rparr> in
         call (ContainerRemove (api client) (Container.ID c) opts)
              (EvContainerRemove (Container.ID c) opts)
              (logf DebugLevel ''Removing container %s'' [ArgStr (Container.ID c)] w)))"

text \<open>Lines 102 to 105: the container's own stop signal, or the default when it has none.\<close>

definition signalFor :: "Container \<Rightarrow> string" where
  "signalFor c = (if StopSignal c = [] then defaultStopSignal else StopSignal c)"

definition StopContainer :: "'s dockerClient \<Rightarrow> Container \<Rightarrow> int \<Rightarrow> 's world \<Rightarrow> error option \<times> 's world" where
  "StopContainer client c timeout w =
     (let signal = signalFor c;
          w1 = logf InfoLevel ''Stopping %s (%s) with %s''
                 [ArgStr (Name c), ArgStr (Container.ID c), ArgStr signal] w
      in case call (ContainerKill (api client) (Container.ID c) signal)
                   (EvContainerKill (Container.ID c) signal) w1 of
           (Some err, w2) \<Rightarrow> (Some err, w2)
         | (None, w2) \<Rightarrow>
             (let w3 = snd (waitForStop client c timeout w2) in
              case removeUnlessAutoRemove client c w3 of
                (Some err, w4) \<Rightarrow> (Some err, w4)
              | (None, w4) \<Rightarrow>
                  (case waitForStop client c timeout w4 of
                     (None, w5) \<Rightarrow>
                       (Some (Errorf ''Container %s (%s) could not be removed''
                                [Name c, Container.ID c]), w5)
                   | (Some err, w5) \<Rightarrow> (None, w5))))"

section \<open>The Recreation Engine: \<open>StartContainer\<close>\<close>

text \<open>
  A Go \<open>range\<close> over a map visits every entry once, in an order the runtime chooses anew
  each time. The order is an input of the model: a list of keys. \<open>range_entries\<close> gives the
  entries visited, and \<open>range_order\<close> says that the list is an order the runtime can
  choose, that is, an enumeration of the keys of the map without repetition.
\<close>

definition range_entries :: "('k \<rightharpoonup> 'v) \<Rightarrow> 'k list \<Rightarrow> ('k \<times> 'v) list" where
  "range_entries m ks = List.map_filter (\<lambda>k. map_option (Pair k) (m k)) ks"

definition range_order :: "('k \<rightharpoonup> 'v) \<Rightarrow> 'k list \<Rightarrow> bool" where
  "range_order m ks = (distinct ks \<and> set ks = dom m)"

text \<open>The loop of lines 161 to 166: disconnect, stopping at the first error.\<close>

fun disconnect_loop :: "'s dockerClient \<Rightarrow> string \<Rightarrow> string list \<Rightarrow> 's world \<Rightarrow> error option \<times> 's world" where
  "disconnect_loop client cid [] w = (None, w)"
| "disconnect_loop client cid (k # ks) w =
     (case call (NetworkDisconnect (api client) k cid True) (EvNetworkDisconnect k cid True) w of
        (Some err, w1) \<Rightarrow> (Some err, w1)
      | (None, w1) \<Rightarrow> disconnect_loop client cid ks w1)"

text \<open>The loop of lines 168 to 173: connect, stopping at the first error.\<close>

fun connect_loop :: "'s dockerClient \<Rightarrow> string \<Rightarrow> (string \<times> EndpointSettings) list \<Rightarrow> 's world \<Rightarrow> error option \<times> 's world" where
  "connect_loop client cid [] w = (None, w)"
| "connect_loop client cid ((k, v) # kvs) w =
     (case call (NetworkConnect (api client) k cid v) (EvNetworkConnect k cid v) w of
        (Some err, w1) \<Rightarrow> (Some err, w1)
      | (None, w1) \<Rightarrow> connect_loop client cid kvs w1)"

text \<open>
  \<open>simpleNetworkConfig\<close>: the \<open>range\<close> of line 143 breaks after its first entry, so the
  map it fills holds the first entry visited, or nothing when the mapping is empty.
  \<open>ord1\<close> is the order of that \<open>range\<close>. A map with at most one entry has one order only,
  which is what the \<open>range\<close> of line 161 follows.
\<close>

definition oneEndpoint :: "Container \<Rightarrow> string list \<Rightarrow> (string \<times> EndpointSettings) list" where
  "oneEndpoint c ord1 =
     take 1 (range_entries (Networks (NetworkSettings (containerInfo c))) ord1)"

definition simpleNetworkConfig :: "Container \<Rightarrow> string list \<Rightarrow> NetworkingConfig" where
  "simpleNetworkConfig c ord1 = \<lparr>EndpointsConfig = map_of (oneEndpoint c ord1)\<rparr>"

text \<open>
  \<open>StartContainer\<close>. \<open>ord2\<close> is the order of the \<open>range\<close> of line 168. The Go result
  \<open>("", err)\<close> is \<open>Inl err\<close>, and \<open>(creation.ID, nil)\<close> is \<open>Inr creation.ID\<close>.
\<close>

definition StartContainer :: "'s dockerClient \<Rightarrow> Container \<Rightarrow> string list \<Rightarrow> string list \<Rightarrow> 's world \<Rightarrow> (error + string) \<times> 's world" where
  "StartContainer client c ord1 ord2 w =
     (let config = runtimeConfig c;
          hostCfg = hostConfig c;
          networkConfig = \<lparr>EndpointsConfig = Networks (NetworkSettings (containerInfo c))\<rparr>;
          name = Name c;
          w1 = logf InfoLevel ''Creating %s'' [ArgStr name] w
      in case call (ContainerCreate (api client) config hostCfg (simpleNetworkConfig c ord1) name)
                   (EvContainerCreate config hostCfg (simpleNetworkConfig c ord1) name) w1 of
           (Inl err, w2) \<Rightarrow> (Inl err, w2)
         | (Inr creation, w2) \<Rightarrow>
             (let cid = ContainerCreateCreatedBody.ID creation in
              case (if \<not> IsHost (NetworkMode hostCfg) then
                      (case disconnect_loop client cid (map fst (oneEndpoint c ord1)) w2 of
                         (Some err, w3) \<Rightarrow> (Some err, w3)
                       | (None, w3) \<Rightarrow>
                           connect_loop client cid
                             (range_entries (EndpointsConfig networkConfig) ord2) w3)
                    else (None, w2)) of
                (Some err, w4) \<Rightarrow> (Inl err, w4)
              | (None, w4) \<Rightarrow>
                  (let w5 = logf DebugLevel ''Starting container %s (%s)''
                              [ArgStr name, ArgStr cid] w4
                   in case call (ContainerStart (api client) cid) (EvContainerStart cid) w5 of
                        (Some err, w6) \<Rightarrow> (Inl err, w6)
                      | (None, w6) \<Rightarrow> (Inr cid, w6))))"

section \<open>The Staleness Detector: \<open>IsContainerStale\<close>\<close>

text \<open>Lines 225 to 236: inspect the image reference and compare the two image ids.\<close>

definition inspectAndCompare :: "'s dockerClient \<Rightarrow> Container \<Rightarrow> 's world \<Rightarrow> (bool \<times> error option) \<times> 's world" where
  "inspectAndCompare client c w =
     (let oldImageInfo = imageInfo c;
          imageName = ImageName c
      in case call (ImageInspectWithRaw (api client) imageName)
                   (EvImageInspectWithRaw imageName) w of
           (Inl err, w1) \<Rightarrow> ((False, Some err), w1)
         | (Inr newImageInfo, w1) \<Rightarrow>
             if ImageInspect.ID newImageInfo \<noteq> ImageInspect.ID oldImageInfo then
               ((True, None),
                logf InfoLevel ''Found new %s image (%s)''
                  [ArgStr imageName, ArgStr (ImageInspect.ID newImageInfo)] w1)
             else
               ((False, None),
                logf DebugLevel ''No new images found for %s'' [ArgStr (Name c)] w1))"

text \<open>
  \<open>IsContainerStale\<close>. The result of \<open>ioutil.ReadAll\<close> is assigned and never read. The
  deferred \<open>response.Close()\<close> runs when the function returns, after the inspection.
\<close>

definition IsContainerStale :: "'s dockerClient \<Rightarrow> Container \<Rightarrow> 's world \<Rightarrow> (bool \<times> error option) \<times> 's world" where
  "IsContainerStale client c w =
     (let imageName = ImageName c in
      if pullImages client then
        (let w1 = logf DebugLevel ''Pulling %s for %s'' [ArgStr imageName, ArgStr (Name c)] w in
         case call (EncodedAuth (api client) imageName) (EvEncodedAuth imageName) w1 of
           (Inl err, w2) \<Rightarrow>
             ((False, Some err),
              logf DebugLevel ''Error loading authentication credentials %s'' [ArgErr err] w2)
         | (Inr auth, w2) \<Rightarrow>
             (let opts = (if auth = [] then \<lparr>RegistryAuth = [], PrivilegeFunc = None\<rparr>
                          else \<lparr>RegistryAuth = auth, PrivilegeFunc = Some DefaultAuthHandler\<rparr>);
                  w3 = (if auth = [] then
                          logf DebugLevel ''No authentication credentials found for %s''
                            [ArgStr imageName] w2
                        else w2)
              in case call (ImagePull (api client) imageName opts) (EvImagePull imageName opts) w3 of
                   (Inl err, w4) \<Rightarrow>
                     ((False, Some err),
                      logf DebugLevel ''Error pulling image %s, %s''
                        [ArgStr imageName, ArgErr err] w4)
                 | (Inr response, w4) \<Rightarrow>
                     (let w5 = snd (call (ReadAll (api client) response) (EvReadAll response) w4)
                      in case inspectAndCompare client c w5 of
                           (r, w6) \<Rightarrow>
                             (r, snd (call (Close (api client) response) (EvClose response) w6)))))
      else inspectAndCompare client c w)"

section \<open>The Command Executor: \<open>ExecuteCommand\<close>\<close>

text \<open>
  \<open>strings.TrimSpace\<close> belongs to the Go library; the model takes it as the parameter
  \<open>TrimSpace\<close>. \<open>ExitCode\<close> is a Go \<open>int\<close> and is only compared with zero. \<open>log.Error x\<close>
  prints its argument as \<open>%v\<close> does. The deferred \<open>response.Close()\<close> is registered only
  when the attach succeeded and the exec was started, and runs when the function returns.
\<close>

definition ExecuteCommand :: "(string \<Rightarrow> string) \<Rightarrow> 's dockerClient \<Rightarrow> string \<Rightarrow> string \<Rightarrow> 's world \<Rightarrow> error option \<times> 's world" where
  "ExecuteCommand TrimSpace client containerID command w =
     (let execConfig = \<lparr>ExecConfig.Tty = True, AttachStderr = True, AttachStdout = True,
                         ExecConfig.Detach = False, ExecConfig.Cmd = [''sh'', ''-c'', command]\<rparr>
      in case call (ContainerExecCreate (api client) containerID execConfig)
                   (EvContainerExecCreate containerID execConfig) w of
           (Inl err, w1) \<Rightarrow> (Some err, w1)
         | (Inr exec, w1) \<Rightarrow>
             (let execID = IDResponse.ID exec;
                  attachConfig = \<lparr>ExecConfig.Tty = True, AttachStderr = True, AttachStdout = True,
                                   ExecConfig.Detach = False, ExecConfig.Cmd = []\<rparr>;
                  attached = call (ContainerExecAttach (api client) execID attachConfig)
                               (EvContainerExecAttach execID attachConfig) w1;
                  w2 = (case fst attached of
                          Inl attachErr \<Rightarrow>
                            logf ErrorLevel ''Failed to extract command exec logs: %v''
                              [ArgErr attachErr] (snd attached)
                        | Inr response \<Rightarrow> snd attached);
                  execStartCheck = \<lparr>ExecStartCheck.Detach = False, ExecStartCheck.Tty = True\<rparr>
              in case call (ContainerExecStart (api client) execID execStartCheck)
                           (EvContainerExecStart execID execStartCheck) w2 of
                   (Some err, w3) \<Rightarrow> (Some err, w3)
                 | (None, w3) \<Rightarrow>
                     (let captured =
                            (case fst attached of
                               Inl attachErr \<Rightarrow> ([], w3)
                             | Inr response \<Rightarrow>
                                 (case call (ReadFrom (api client) response) (EvReadFrom response) w3 of
                                    ((written, Some err), w4) \<Rightarrow>
                                      ([], logf ErrorLevel ''%v'' [ArgErr err] w4)
                                  | ((written, None), w4) \<Rightarrow>
                                      (if length written > 0 then TrimSpace written else [], w4)));
                          execOutput = fst captured;
                          deferred = (\<lambda>w'. case fst attached of
                                              Inl attachErr \<Rightarrow> w'
                                            | Inr response \<Rightarrow>
                                                snd (call (CloseHijacked (api client) response)
                                                       (EvCloseHijacked response) w'))
                      in case call (ContainerExecInspect (api client) execID)
                                   (EvContainerExecInspect execID) (snd captured) of
                           (Inl err, w5) \<Rightarrow> (Some err, deferred w5)
                         | (Inr execInspect, w5) \<Rightarrow>
                             (None,
                              deferred
                                (if ExitCode execInspect > 0 then
                                   logf ErrorLevel ''%v'' [ArgStr execOutput]
                                     (logf ErrorLevel ''Command exited with code %v.''
                                        [ArgInt (ExitCode execInspect)] w5)
                                 else if length execOutput > 0 then
                                   logf InfoLevel (''Command output:'' @ [CHR 0x0A] @ ''%v'')
                                     [ArgStr execOutput] w5
                                 else w5)))))"

section \<open>Reading a trace\<close>

text \<open>Which events are calls (everything but a log entry), and which calls they are.\<close>

fun is_call :: "event \<Rightarrow> bool" where
  "is_call (Log lvl fmt args) = False"
| "is_call ev = True"

fun is_inspect :: "string \<Rightarrow> event \<Rightarrow> bool" where
  "is_inspect cid (EvContainerInspect cid' res) = (cid' = cid)"
| "is_inspect cid ev = False"

fun inspect_ok :: "string \<Rightarrow> event \<Rightarrow> bool" where
  "inspect_ok cid (EvContainerInspect cid' (Inr ci)) = (cid' = cid)"
| "inspect_ok cid ev = False"

fun is_remove :: "event \<Rightarrow> bool" where
  "is_remove (EvContainerRemove cid opts res) = True"
| "is_remove ev = False"

fun is_network_call :: "event \<Rightarrow> bool" where
  "is_network_call (EvNetworkDisconnect net cid force res) = True"
| "is_network_call (EvNetworkConnect net cid es res) = True"
| "is_network_call ev = False"

fun is_create_or_start :: "event \<Rightarrow> bool" where
  "is_create_or_start (EvContainerCreate config hostCfg nc name res) = True"
| "is_create_or_start (EvContainerStart cid res) = True"
| "is_create_or_start ev = False"

text \<open>An event that does not contradict that the container is gone: no inspection in it
  answers anything but "no such container".\<close>

fun observed_gone :: "event \<Rightarrow> bool" where
  "observed_gone (EvContainerInspect cid (Inl e)) = IsErrNotFound e"
| "observed_gone (EvContainerInspect cid (Inr ci)) = False"
| "observed_gone ev = True"

text \<open>The log entry that opens every \<open>StopContainer\<close> trace.\<close>

definition stopLog :: "Container \<Rightarrow> event" where
  "stopLog c = Log InfoLevel ''Stopping %s (%s) with %s''
                 [ArgStr (Name c), ArgStr (Container.ID c), ArgStr (signalFor c)]"

text \<open>
  What the removal step leaves in the trace when it does not fail: for an auto-remove
  container the log entry that says the removal is skipped, otherwise the log entry and
  the accepted forced removal that keeps the volumes.
\<close>

definition removal_events :: "Container \<Rightarrow> event list" where
  "removal_events c =
     (if AutoRemove (HostConfig (containerInfo c)) then
        [Log DebugLevel ''AutoRemove container %s, skipping ContainerRemove call.''
           [ArgStr (Container.ID c)]]
      else
        [Log DebugLevel ''Removing container %s'' [ArgStr (Container.ID c)],
         EvContainerRemove (Container.ID c) \<lparr>Force = True, RemoveVolumes = False\<rparr> None])"

fun is_image_inspect :: "event \<Rightarrow> bool" where
  "is_image_inspect (EvImageInspectWithRaw ref res) = True"
| "is_image_inspect ev = False"

fun is_read_all :: "event \<Rightarrow> bool" where
  "is_read_all (EvReadAll rc res) = True"
| "is_read_all ev = False"

text \<open>The log entry that follows the comparison of the two image ids.\<close>

definition compareLog :: "Container \<Rightarrow> ImageInspect \<Rightarrow> event" where
  "compareLog c newImageInfo =
     (if ImageInspect.ID newImageInfo \<noteq> ImageInspect.ID (imageInfo c) then
        Log InfoLevel ''Found new %s image (%s)''
          [ArgStr (ImageName c), ArgStr (ImageInspect.ID newImageInfo)]
      else Log DebugLevel ''No new images found for %s'' [ArgStr (Name c)])"

section \<open>The daemon's networks\<close>

text \<open>
  Modelled from the spec: the daemon is not part of the repository. What its network calls
  do to the set of networks a container is attached to is what section 4.4 of the
  specification relies on: creation attaches the new container to the networks of the
  networking configuration it is given, an accepted disconnect detaches it from the
  network named, an accepted connect attaches it to the network named with the endpoint
  settings given, and a rejected call changes nothing. \<open>membership cid tr\<close> is the
  attachment of container \<open>cid\<close> after the calls of the trace \<open>tr\<close>.
\<close>

fun attach :: "string \<Rightarrow> event \<Rightarrow> (string \<rightharpoonup> EndpointSettings) \<Rightarrow> (string \<rightharpoonup> EndpointSettings)" where
  "attach cid (EvContainerCreate config hostCfg nc name (Inr body)) m =
     (if ContainerCreateCreatedBody.ID body = cid then EndpointsConfig nc else m)"
| "attach cid (EvNetworkDisconnect net cid' force None) m =
     (if cid' = cid then m(net := None) else m)"
| "attach cid (EvNetworkConnect net cid' es None) m =
     (if cid' = cid then m(net \<mapsto> es) else m)"
| "attach cid ev m = m"

definition membership :: "string \<Rightarrow> event list \<Rightarrow> (string \<rightharpoonup> EndpointSettings)" where
  "membership cid tr = fold (attach cid) tr Map.empty"

section \<open>Concrete containers and daemons\<close>

text \<open>
  The scenario of the specification: container \<open>c1\<close>, named \<open>web\<close>, runs image
  \<open>sha256:aaa\<close> and is attached to the networks \<open>A\<close> and \<open>B\<close>.
\<close>

definition endpointA :: EndpointSettings where
  "endpointA = \<lparr>Aliases = [''web''], NetworkID = ''netA'', IPAddress = ''10.0.0.2''\<rparr>"

definition endpointB :: EndpointSettings where
  "endpointB = \<lparr>Aliases = [''web'', ''www''], NetworkID = ''netB'', IPAddress = ''10.0.1.2''\<rparr>"

definition web :: Container where
  "web = \<lparr>containerInfo =
             \<lparr>State = \<lparr>Running = True\<rparr>,
              HostConfig = \<lparr>AutoRemove = False, NetworkMode = ''A''\<rparr>,
              NetworkSettings = \<lparr>Networks = [''A'' \<mapsto> endpointA, ''B'' \<mapsto> endpointB]\<rparr>\<rparr>,
           imageInfo = \<lparr>ImageInspect.ID = ''sha256:aaa'', RepoDigests = []\<rparr>,
           Container.ID = ''c1'', Name = ''web'', StopSignal = [], ImageName = ''web:latest'',
           runtimeConfig = \<lparr>Image = ''web:latest'', Config.Cmd = [], Env = []\<rparr>,
           hostConfig = \<lparr>AutoRemove = False, NetworkMode = ''A''\<rparr>\<rparr>"

text \<open>The same container started with auto-remove, on the host network, and on no network.\<close>

definition web_autoremove :: Container where
  "web_autoremove =
     web\<lparr>containerInfo :=
           \<lparr>State = \<lparr>Running = True\<rparr>,
            HostConfig = \<lparr>AutoRemove = True, NetworkMode = ''A''\<rparr>,
            NetworkSettings = \<lparr>Networks = [''A'' \<mapsto> endpointA, ''B'' \<mapsto> endpointB]\<rparr>\<rparr>\<rparr>"

definition web_host :: Container where
  "web_host =
     web\<lparr>containerInfo :=
           \<lparr>State = \<lparr>Running = True\<rparr>,
            HostConfig = \<lparr>AutoRemove = False, NetworkMode = ''host''\<rparr>,
            NetworkSettings = \<lparr>Networks = [''host'' \<mapsto> endpointA]\<rparr>\<rparr>,
         hostConfig := \<lparr>AutoRemove = False, NetworkMode = ''host''\<rparr>\<rparr>"

definition web_no_network :: Container where
  "web_no_network =
     web\<lparr>containerInfo :=
           \<lparr>State = \<lparr>Running = True\<rparr>,
            HostConfig = \<lparr>AutoRemove = False, NetworkMode = ''container:db''\<rparr>,
            NetworkSettings = \<lparr>Networks = Map.empty\<rparr>\<rparr>,
         hostConfig := \<lparr>AutoRemove = False, NetworkMode = ''container:db''\<rparr>\<rparr>"

text \<open>
  A cooperative daemon. Its state counts the inspections of containers made so far: the
  first one finds the container running, every later one finds it gone. Every other call
  succeeds; the image reference resolves to \<open>sha256:bbb\<close>; a timer leaves room for two
  turns of the waiting loop.
\<close>

definition dockerd :: "nat API" where
  "dockerd =
     \<lparr>ContainerKill = (\<lambda>cid sig n. (None, n)),
      ContainerInspect = (\<lambda>cid n.
        (if n < 1 then Inr (containerInfo web)
         else Inl (ErrNotFound (''No such container: '' @ cid)), Suc n)),
      ContainerRemove = (\<lambda>cid opts n. (None, n)),
      ContainerCreate = (\<lambda>config hostCfg nc name n. (Inr \<lparr>ContainerCreateCreatedBody.ID = ''c2''\<rparr>, n)),
      NetworkDisconnect = (\<lambda>net cid force n. (None, n)),
      NetworkConnect = (\<lambda>net cid es n. (None, n)),
      ContainerStart = (\<lambda>cid n. (None, n)),
      ImagePull = (\<lambda>ref opts n. (Inr (ReadCloser 0), n)),
      ImageInspectWithRaw = (\<lambda>ref n.
        (Inr \<lparr>ImageInspect.ID = ''sha256:bbb'', RepoDigests = []\<rparr>, n)),
      ContainerExecCreate = (\<lambda>cid cfg n. (Inr \<lparr>IDResponse.ID = ''e1''\<rparr>, n)),
      ContainerExecAttach = (\<lambda>eid cfg n. (Inr (HijackedResponse 0), n)),
      ContainerExecStart = (\<lambda>eid chk n. (None, n)),
      ContainerExecInspect = (\<lambda>eid n. (Inr \<lparr>ExitCode = 3\<rparr>, n)),
      EncodedAuth = (\<lambda>ref n. (Inr [], n)),
      ReadAll = (\<lambda>rc n. ((''{}'', None), n)),
      Close = (\<lambda>rc n. ((), n)),
      ReadFrom = (\<lambda>hr n. (('' boom '', None), n)),
      CloseHijacked = (\<lambda>hr n. ((), n)),
      polls = (\<lambda>t n. 2)\<rparr>"

text \<open>A daemon on which the container never goes away.\<close>

definition dockerd_stuck :: "nat API" where
  "dockerd_stuck = dockerd\<lparr>ContainerInspect := (\<lambda>cid n. (Inr (containerInfo web), Suc n))\<rparr>"

text \<open>
  A daemon on which the container is already removed: as the Docker daemon does, it
  answers "no such container" to every call that names it.
\<close>

definition dockerd_gone :: "nat API" where
  "dockerd_gone =
     dockerd\<lparr>ContainerKill := (\<lambda>cid sig n. (Some (ErrNotFound (''No such container: '' @ cid)), n)),
             ContainerInspect := (\<lambda>cid n. (Inl (ErrNotFound (''No such container: '' @ cid)), Suc n)),
             ContainerRemove := (\<lambda>cid opts n. (Some (ErrNotFound (''No such container: '' @ cid)), n))\<rparr>"

text \<open>
  A test double on which the container is already removed, but which accepts the kill and
  the removal all the same; only inspections report the container as missing.
\<close>

definition dockerd_gone_lenient :: "nat API" where
  "dockerd_gone_lenient =
     dockerd\<lparr>ContainerInspect := (\<lambda>cid n. (Inl (ErrNotFound (''No such container: '' @ cid)), Suc n))\<rparr>"

text \<open>A daemon that cannot be reached for inspections.\<close>

definition dockerd_unreachable :: "nat API" where
  "dockerd_unreachable =
     dockerd\<lparr>ContainerInspect := (\<lambda>cid n. (Inl (ErrDaemon ''connection refused''), Suc n))\<rparr>"

text \<open>A daemon that rejects the kill, and one that rejects the removal.\<close>

definition dockerd_no_kill :: "nat API" where
  "dockerd_no_kill =
     dockerd\<lparr>ContainerKill := (\<lambda>cid sig n. (Some (ErrDaemon ''cannot kill''), n))\<rparr>"

definition dockerd_no_remove :: "nat API" where
  "dockerd_no_remove =
     dockerd\<lparr>ContainerRemove := (\<lambda>cid opts n. (Some (ErrDaemon ''cannot remove''), n))\<rparr>"

text \<open>The container when it already runs the image the reference resolves to.\<close>

definition web_fresh :: Container where
  "web_fresh = web\<lparr>imageInfo := \<lparr>ImageInspect.ID = ''sha256:bbb'', RepoDigests = []\<rparr>\<rparr>"

text \<open>
  A registry credential lookup that fails, a pull whose response stream breaks while it is
  read, and an exec session that ends with a negative exit code.
\<close>

definition dockerd_no_auth :: "nat API" where
  "dockerd_no_auth =
     dockerd\<lparr>EncodedAuth := (\<lambda>ref n. (Inl (ErrDaemon ''bad credentials''), n))\<rparr>"

definition dockerd_broken_stream :: "nat API" where
  "dockerd_broken_stream =
     dockerd\<lparr>ReadAll := (\<lambda>rc n. (([], Some (ErrDaemon ''unexpected EOF'')), n))\<rparr>"

definition dockerd_negative_exit :: "nat API" where
  "dockerd_negative_exit =
     dockerd\<lparr>ContainerExecInspect := (\<lambda>eid n. (Inr \<lparr>ExitCode = - 1\<rparr>, n))\<rparr>"

text \<open>
  For the runs of \<open>ExecuteCommand\<close> below, \<open>strings.TrimSpace\<close> on ASCII text: it drops
  the leading and trailing tabs, line feeds, vertical tabs, form feeds, carriage returns
  and spaces.
\<close>

definition ascii_space :: "char \<Rightarrow> bool" where
  "ascii_space ch = (ch \<in> set [CHR 0x09, CHR 0x0A, CHR 0x0B, CHR 0x0C, CHR 0x0D, CHR 0x20])"

definition TrimSpaceASCII :: "string \<Rightarrow> string" where
  "TrimSpaceASCII str = rev (dropWhile ascii_space (rev (dropWhile ascii_space str)))"

section \<open>Basic facts about traces\<close>

lemma call_trace:
  "call f ev w = (r, w') \<Longrightarrow> trace w' = trace w @ [ev r] \<and> f (daemon w) = (r, daemon w')"
  by (auto simp: call_def split: prod.splits)

lemma logf_trace [simp]: "trace (logf lvl fmt args w) = trace w @ [Log lvl fmt args]"
  by (simp add: logf_def)

lemma logf_daemon [simp]: "daemon (logf lvl fmt args w) = daemon w"
  by (simp add: logf_def)

lemma waitForStop_loop_trace:
  "waitForStop_loop client c n w = (r, w') \<Longrightarrow>
   \<exists>evs. list_all (inspect_ok (Container.ID c)) evs \<and>
         trace w' = trace w @ evs @
           (case r of None \<Rightarrow> [] | Some e \<Rightarrow> [EvContainerInspect (Container.ID c) (Inl e)])"
proof (induction n arbitrary: w)
  case 0
  then show ?case by auto
next
  case (Suc n)
  obtain a w1 where c1: "call (ContainerInspect (api client) (Container.ID c))
       (EvContainerInspect (Container.ID c)) w = (a, w1)"
    by (cases "call (ContainerInspect (api client) (Container.ID c))
       (EvContainerInspect (Container.ID c)) w")
  then have t1: "trace w1 = trace w @ [EvContainerInspect (Container.ID c) a]"
    using call_trace by fastforce
  show ?case
  proof (cases a)
    case (Inl err)
    with Suc.prems c1 t1 show ?thesis
      by (intro exI[of _ "[]"]) auto
  next
    case (Inr ci)
    show ?thesis
    proof (cases "Running (State ci)")
      case False
      with Suc.prems c1 t1 Inr show ?thesis
        by (intro exI[of _ "[EvContainerInspect (Container.ID c) (Inr ci)]"]) auto
    next
      case True
      with Suc.prems c1 Inr have "waitForStop_loop client c n w1 = (r, w')" by simp
      from Suc.IH[OF this] obtain evs where
        "list_all (inspect_ok (Container.ID c)) evs"
        "trace w' = trace w1 @ evs @
           (case r of None \<Rightarrow> [] | Some e \<Rightarrow> [EvContainerInspect (Container.ID c) (Inl e)])"
        by blast
      with t1 Inr show ?thesis
        by (intro exI[of _ "EvContainerInspect (Container.ID c) (Inr ci) # evs"]) auto
    qed
  qed
qed

lemma waitForStop_trace:
  "waitForStop client c t w = (r, w') \<Longrightarrow>
   \<exists>evs. list_all (inspect_ok (Container.ID c)) evs \<and>
         trace w' = trace w @ evs @
           (case r of None \<Rightarrow> [] | Some e \<Rightarrow> [EvContainerInspect (Container.ID c) (Inl e)])"
  unfolding waitForStop_def by (rule waitForStop_loop_trace)


lemma removeUnlessAutoRemove_trace:
  "removeUnlessAutoRemove client c w = (r, w') \<Longrightarrow>
   (r = None \<and> trace w' = trace w @ removal_events c) \<or>
   (\<exists>e. r = Some e \<and> \<not> AutoRemove (HostConfig (containerInfo c)) \<and>
        trace w' = trace w @
          [Log DebugLevel ''Removing container %s'' [ArgStr (Container.ID c)],
           EvContainerRemove (Container.ID c) \<lparr>Force = True, RemoveVolumes = False\<rparr> (Some e)])"
  unfolding removeUnlessAutoRemove_def removal_events_def
  by (cases r) (auto simp: Let_def dest!: call_trace split: if_splits)

lemma inspect_ok_is_inspect: "inspect_ok cid ev \<Longrightarrow> is_inspect cid ev"
  by (cases "(cid, ev)" rule: inspect_ok.cases) auto

lemma waitForStop_inspects:
  assumes "waitForStop client c t w = (r, w')"
  shows "\<exists>evs. list_all (is_inspect (Container.ID c)) evs \<and> trace w' = trace w @ evs"
proof -
  from waitForStop_trace[OF assms] obtain evs where
    ok: "list_all (inspect_ok (Container.ID c)) evs" and
    tr: "trace w' = trace w @ evs @
           (case r of None \<Rightarrow> [] | Some e \<Rightarrow> [EvContainerInspect (Container.ID c) (Inl e)])"
    by blast
  from ok have "list_all (is_inspect (Container.ID c)) evs"
    by (simp add: list_all_iff inspect_ok_is_inspect)
  then have "list_all (is_inspect (Container.ID c))
     (evs @ (case r of None \<Rightarrow> [] | Some e \<Rightarrow> [EvContainerInspect (Container.ID c) (Inl e)]))"
    by (cases r) auto
  with tr show ?thesis by blast
qed

lemma StopContainer_cases [consumes 1, case_names kill_failed remove_failed confirmed unconfirmed]:
  assumes run: "StopContainer client c t w = (r, w')"
  obtains
    (kill_failed) e where "r = Some e"
      "trace w' = trace w @ [stopLog c, EvContainerKill (Container.ID c) (signalFor c) (Some e)]"
  | (remove_failed) e wait1 where "r = Some e" "\<not> AutoRemove (HostConfig (containerInfo c))"
      "list_all (is_inspect (Container.ID c)) wait1"
      "trace w' = trace w @ [stopLog c, EvContainerKill (Container.ID c) (signalFor c) None] @ wait1 @
          [Log DebugLevel ''Removing container %s'' [ArgStr (Container.ID c)],
           EvContainerRemove (Container.ID c) \<lparr>Force = True, RemoveVolumes = False\<rparr> (Some e)]"
  | (confirmed) wait1 wait2 e where "r = None"
      "list_all (is_inspect (Container.ID c)) wait1"
      "list_all (inspect_ok (Container.ID c)) wait2"
      "trace w' = trace w @ [stopLog c, EvContainerKill (Container.ID c) (signalFor c) None] @ wait1 @
          removal_events c @ wait2 @ [EvContainerInspect (Container.ID c) (Inl e)]"
  | (unconfirmed) wait1 wait2 where
      "r = Some (Errorf ''Container %s (%s) could not be removed'' [Name c, Container.ID c])"
      "list_all (is_inspect (Container.ID c)) wait1"
      "list_all (inspect_ok (Container.ID c)) wait2"
      "trace w' = trace w @ [stopLog c, EvContainerKill (Container.ID c) (signalFor c) None] @ wait1 @
          removal_events c @ wait2"
proof -
  let ?w1 = "logf InfoLevel ''Stopping %s (%s) with %s''
                 [ArgStr (Name c), ArgStr (Container.ID c), ArgStr (signalFor c)] w"
  obtain k w2 where kill: "call (ContainerKill (api client) (Container.ID c) (signalFor c))
                   (EvContainerKill (Container.ID c) (signalFor c)) ?w1 = (k, w2)"
    by (cases "call (ContainerKill (api client) (Container.ID c) (signalFor c))
                   (EvContainerKill (Container.ID c) (signalFor c)) ?w1")
  then have t2: "trace w2 = trace w @ [stopLog c, EvContainerKill (Container.ID c) (signalFor c) k]"
    by (auto dest!: call_trace simp: stopLog_def)
  show thesis
  proof (cases k)
    case (Some e)
    with run kill have "r = Some e" "w' = w2"
      by (auto simp: StopContainer_def Let_def)
    with t2 Some show thesis
      by (intro kill_failed[of e]) auto
  next
    case None
    obtain r1 w3 where wait1: "waitForStop client c t w2 = (r1, w3)"
      by (cases "waitForStop client c t w2")
    from waitForStop_inspects[OF this] obtain evs1 where
      e1: "list_all (is_inspect (Container.ID c)) evs1" and t3: "trace w3 = trace w2 @ evs1"
      by blast
    obtain rr w4 where rem: "removeUnlessAutoRemove client c w3 = (rr, w4)"
      by (cases "removeUnlessAutoRemove client c w3")
    show thesis
    proof (cases rr)
      case (Some e)
      with run kill None wait1 rem have res: "r = Some e" "w' = w4"
        by (auto simp: StopContainer_def Let_def)
      from removeUnlessAutoRemove_trace[OF rem] Some
      have "\<not> AutoRemove (HostConfig (containerInfo c))" and
        "trace w4 = trace w3 @
          [Log DebugLevel ''Removing container %s'' [ArgStr (Container.ID c)],
           EvContainerRemove (Container.ID c) \<lparr>Force = True, RemoveVolumes = False\<rparr> (Some e)]"
        by auto
      with res t2 t3 e1 None show thesis
        by (intro remove_failed[of e evs1]) auto
    next
      case rrNone: None
      from removeUnlessAutoRemove_trace[OF rem] rrNone
      have t4: "trace w4 = trace w3 @ removal_events c" by auto
      obtain r2 w5 where wait2: "waitForStop client c t w4 = (r2, w5)"
        by (cases "waitForStop client c t w4")
      from waitForStop_trace[OF this] obtain evs2 where
        e2: "list_all (inspect_ok (Container.ID c)) evs2" and
        t5: "trace w5 = trace w4 @ evs2 @
           (case r2 of None \<Rightarrow> [] | Some e \<Rightarrow> [EvContainerInspect (Container.ID c) (Inl e)])"
        by blast
      show thesis
      proof (cases r2)
        case (Some e)
        with run kill None wait1 rem rrNone wait2 have res: "r = None" "w' = w5"
          by (auto simp: StopContainer_def Let_def)
        with t2 t3 t4 t5 Some None e1 e2 show thesis
          by (intro confirmed[of evs1 evs2 e]) auto
      next
        case r2None: None
        with run kill None wait1 rem rrNone wait2 have res:
          "r = Some (Errorf ''Container %s (%s) could not be removed'' [Name c, Container.ID c])"
          "w' = w5"
          by (auto simp: StopContainer_def Let_def)
        with t2 t3 t4 t5 r2None None e1 e2 show thesis
          by (intro unconfirmed[of evs1 evs2]) auto
      qed
    qed
  qed
qed

lemma init_trace [simp]: "trace (init s) = []"
  by (simp add: init_def)

lemma init_daemon [simp]: "daemon (init s) = s"
  by (simp add: init_def)

lemma all_inspects_mem: "list_all (is_inspect cid) evs \<Longrightarrow> ev \<in> set evs \<Longrightarrow> is_inspect cid ev"
  by (simp add: list_all_iff)

lemma all_ok_mem: "list_all (inspect_ok cid) evs \<Longrightarrow> ev \<in> set evs \<Longrightarrow> inspect_ok cid ev"
  by (simp add: list_all_iff)

lemma removal_events_mem:
  "ev \<in> set (removal_events c) \<Longrightarrow>
   ev = Log DebugLevel ''AutoRemove container %s, skipping ContainerRemove call.'' [ArgStr (Container.ID c)]
   \<or> ev = Log DebugLevel ''Removing container %s'' [ArgStr (Container.ID c)]
   \<or> ev = EvContainerRemove (Container.ID c) \<lparr>Force = True, RemoveVolumes = False\<rparr> None"
  by (auto simp: removal_events_def split: if_splits)

lemma removal_events_nonempty [simp]: "removal_events c \<noteq> []"
  by (simp add: removal_events_def)

lemma last_after_removal:
  assumes "list_all (inspect_ok (Container.ID c)) wait2"
  shows "inspect_ok (Container.ID c) (last (pre @ removal_events c @ wait2)) \<or>
         last (pre @ removal_events c @ wait2) \<in> set (removal_events c)"
proof (cases "wait2 = []")
  case True
  then show ?thesis by simp
next
  case False
  then have "last (pre @ removal_events c @ wait2) = last wait2" by simp
  moreover from False have "last wait2 \<in> set wait2" by simp
  ultimately show ?thesis using assms all_ok_mem by metis
qed


section \<open>Claims about \<open>StopContainer\<close>\<close>

text \<open>
  C2. \<open>StopContainer\<close> returns \<open>nil\<close> only if the trace ends with the removal step
  (the accepted forced removal, or its omission for an auto-remove container), then
  inspections that succeed, then an inspection that fails: the second wait saw the
  container disappear. And if the trace ends with the removal step followed only by
  inspections that succeed, so that the container was inspectable throughout the second
  wait, the result is the error \<open>Container %s (%s) could not be removed\<close> with the
  container's name and id.
\<close>
theorem StopContainer_success_only_if_confirmed:
  assumes run: "StopContainer client c timeout (init s) = (r, w')"
  shows "(r = None \<longrightarrow>
            (\<exists>pre wait2 e. list_all (inspect_ok (Container.ID c)) wait2 \<and>
               trace w' = pre @ removal_events c @ wait2 @
                            [EvContainerInspect (Container.ID c) (Inl e)]))
       \<and> ((\<exists>pre wait2. list_all (inspect_ok (Container.ID c)) wait2 \<and>
               trace w' = pre @ removal_events c @ wait2) \<longrightarrow>
            r = Some (Errorf ''Container %s (%s) could not be removed''
                        [Name c, Container.ID c]))"
proof (intro conjI impI)
  assume "r = None"
  with run show "\<exists>pre wait2 e. list_all (inspect_ok (Container.ID c)) wait2 \<and>
               trace w' = pre @ removal_events c @ wait2 @
                            [EvContainerInspect (Container.ID c) (Inl e)]"
  proof (cases rule: StopContainer_cases)
    case (confirmed wait1 wait2 e)
    then show ?thesis
      by (intro exI[of _ "[stopLog c, EvContainerKill (Container.ID c) (signalFor c) None] @ wait1"]
                exI[of _ wait2] exI[of _ e]) simp
  qed auto
next
  assume "\<exists>pre wait2. list_all (inspect_ok (Container.ID c)) wait2 \<and>
               trace w' = pre @ removal_events c @ wait2"
  then obtain pre wait2 where ok: "list_all (inspect_ok (Container.ID c)) wait2"
    and tr: "trace w' = pre @ removal_events c @ wait2" by blast
  from last_after_removal[OF ok, of pre] tr
  have l: "inspect_ok (Container.ID c) (last (trace w')) \<or> last (trace w') \<in> set (removal_events c)"
    by simp
  from run show "r = Some (Errorf ''Container %s (%s) could not be removed''
                        [Name c, Container.ID c])"
  proof (cases rule: StopContainer_cases)
    case (kill_failed e)
    with l show ?thesis by (auto dest: removal_events_mem)
  next
    case (remove_failed e wait1)
    with l show ?thesis by (auto dest: removal_events_mem)
  next
    case (confirmed wait1 wait2 e)
    with l show ?thesis by (auto dest: removal_events_mem)
  next
    case (unconfirmed wait1 wait2)
    then show ?thesis by simp
  qed
qed

lemmas stop_run_defs = StopContainer_def waitForStop_def call_def logf_def init_def
  removeUnlessAutoRemove_def signalFor_def defaultStopSignal_def Let_def numeral_2_eq_2
  dockerd_def dockerd_stuck_def dockerd_gone_def dockerd_gone_lenient_def
  dockerd_unreachable_def dockerd_no_kill_def dockerd_no_remove_def
  web_def web_autoremove_def

theorem StopContainer_success_only_if_confirmed_witness:
  "StopContainer \<lparr>api = dockerd, pullImages = False\<rparr> web 10 (init 0) =
     (None,
      \<lparr>daemon = 3,
       trace = [stopLog web, EvContainerKill ''c1'' ''SIGTERM'' None,
                EvContainerInspect ''c1'' (Inr (containerInfo web)),
                EvContainerInspect ''c1'' (Inl (ErrNotFound ''No such container: c1'')),
                Log DebugLevel ''Removing container %s'' [ArgStr ''c1''],
                EvContainerRemove ''c1'' \<lparr>Force = True, RemoveVolumes = False\<rparr> None,
                EvContainerInspect ''c1'' (Inl (ErrNotFound ''No such container: c1''))]\<rparr>)
   \<and> StopContainer \<lparr>api = dockerd_stuck, pullImages = False\<rparr> web 10 (init 0) =
     (Some (Errorf ''Container %s (%s) could not be removed'' [''web'', ''c1'']),
      \<lparr>daemon = 4,
       trace = [stopLog web, EvContainerKill ''c1'' ''SIGTERM'' None,
                EvContainerInspect ''c1'' (Inr (containerInfo web)),
                EvContainerInspect ''c1'' (Inr (containerInfo web)),
                Log DebugLevel ''Removing container %s'' [ArgStr ''c1''],
                EvContainerRemove ''c1'' \<lparr>Force = True, RemoveVolumes = False\<rparr> None,
                EvContainerInspect ''c1'' (Inr (containerInfo web)),
                EvContainerInspect ''c1'' (Inr (containerInfo web))]\<rparr>)"
proof -
  let ?W1 = "\<lparr>daemon = 3::nat,
       trace = [stopLog web, EvContainerKill ''c1'' ''SIGTERM'' None,
                EvContainerInspect ''c1'' (Inr (containerInfo web)),
                EvContainerInspect ''c1'' (Inl (ErrNotFound ''No such container: c1'')),
                Log DebugLevel ''Removing container %s'' [ArgStr ''c1''],
                EvContainerRemove ''c1'' \<lparr>Force = True, RemoveVolumes = False\<rparr> None,
                EvContainerInspect ''c1'' (Inl (ErrNotFound ''No such container: c1''))]\<rparr>"
  let ?W2 = "\<lparr>daemon = 4::nat,
       trace = [stopLog web, EvContainerKill ''c1'' ''SIGTERM'' None,
                EvContainerInspect ''c1'' (Inr (containerInfo web)),
                EvContainerInspect ''c1'' (Inr (containerInfo web)),
                Log DebugLevel ''Removing container %s'' [ArgStr ''c1''],
                EvContainerRemove ''c1'' \<lparr>Force = True, RemoveVolumes = False\<rparr> None,
                EvContainerInspect ''c1'' (Inr (containerInfo web)),
                EvContainerInspect ''c1'' (Inr (containerInfo web))]\<rparr>"
  have run1: "StopContainer \<lparr>api = dockerd, pullImages = False\<rparr> web 10 (init 0) = (None, ?W1)"
    by (simp add: stop_run_defs stopLog_def)
  have run2: "StopContainer \<lparr>api = dockerd_stuck, pullImages = False\<rparr> web 10 (init 0) =
     (Some (Errorf ''Container %s (%s) could not be removed'' [''web'', ''c1'']), ?W2)"
    by (simp add: stop_run_defs stopLog_def)
  have still: "\<exists>pre wait2. list_all (inspect_ok (Container.ID web)) wait2 \<and>
               trace ?W2 = pre @ removal_events web @ wait2"
    by (intro exI[of _ "[stopLog web, EvContainerKill ''c1'' ''SIGTERM'' None,
                EvContainerInspect ''c1'' (Inr (containerInfo web)),
                EvContainerInspect ''c1'' (Inr (containerInfo web))]"]
              exI[of _ "[EvContainerInspect ''c1'' (Inr (containerInfo web)),
                EvContainerInspect ''c1'' (Inr (containerInfo web))]"])
       (simp add: removal_events_def web_def)
  from StopContainer_success_only_if_confirmed[OF run1]
  have "\<exists>pre wait2 e. list_all (inspect_ok (Container.ID web)) wait2 \<and>
               trace ?W1 = pre @ removal_events web @ wait2 @
                            [EvContainerInspect (Container.ID web) (Inl e)]"
    by simp
  moreover from StopContainer_success_only_if_confirmed[OF run2] still
  have "Some (Errorf ''Container %s (%s) could not be removed'' [''web'', ''c1'']) =
        Some (Errorf ''Container %s (%s) could not be removed'' [Name web, Container.ID web])"
    by blast
  ultimately show ?thesis using run1 run2 by simp
qed

lemma is_inspect_not_remove: "is_inspect cid ev \<Longrightarrow> \<not> is_remove ev"
  by (cases ev) auto

lemma filter_remove_inspects:
  "list_all (is_inspect cid) evs \<Longrightarrow> filter is_remove evs = []"
  by (induction evs) (auto dest: is_inspect_not_remove)

lemma filter_remove_removal_events:
  "filter is_remove (removal_events c) =
     (if AutoRemove (HostConfig (containerInfo c)) then []
      else [EvContainerRemove (Container.ID c) \<lparr>Force = True, RemoveVolumes = False\<rparr> None])"
  by (simp add: removal_events_def)

lemma removal_events_not_AutoRemove:
  "EvContainerRemove cid opts res \<in> set (removal_events c) \<Longrightarrow>
     \<not> AutoRemove (HostConfig (containerInfo c)) \<and> res = None"
  by (auto simp: removal_events_def split: if_splits)

lemma stopLog_simps [simp]:
  "\<not> is_remove (stopLog c)" "\<not> is_inspect cid (stopLog c)"
  "stopLog c \<noteq> EvContainerKill a b k" "stopLog c \<noteq> EvContainerRemove a opts k"
  "stopLog c \<noteq> EvContainerInspect a res"
  "EvContainerKill a b k \<noteq> stopLog c" "EvContainerRemove a opts k \<noteq> stopLog c"
  "EvContainerInspect a res \<noteq> stopLog c"
  by (simp_all add: stopLog_def)

text \<open>
  C6. The removal step of \<open>StopContainer\<close> (lines 116 to 124) issues no removal call for
  an auto-remove container, and otherwise exactly one: the removal of this container with
  \<open>Force\<close> true and \<open>RemoveVolumes\<close> false. For a whole run of \<open>StopContainer\<close> this
  means: with auto-remove the trace holds no removal call; without it, once the kill has
  been accepted so that the step is reached, the trace holds exactly that one.
\<close>

theorem StopContainer_removal_calls:
  "(\<forall>w r1 w1. removeUnlessAutoRemove client c w = (r1, w1) \<longrightarrow>
      filter is_remove (drop (length (trace w)) (trace w1)) =
        (if AutoRemove (HostConfig (containerInfo c)) then []
         else [EvContainerRemove (Container.ID c) \<lparr>Force = True, RemoveVolumes = False\<rparr> r1]))
   \<and> (\<forall>r w'. StopContainer client c timeout (init s) = (r, w') \<longrightarrow>
        (AutoRemove (HostConfig (containerInfo c)) \<longrightarrow> filter is_remove (trace w') = []) \<and>
        (\<not> AutoRemove (HostConfig (containerInfo c)) \<and>
         EvContainerKill (Container.ID c) (signalFor c) None \<in> set (trace w') \<longrightarrow>
           (\<exists>res. filter is_remove (trace w') =
              [EvContainerRemove (Container.ID c) \<lparr>Force = True, RemoveVolumes = False\<rparr> res])))"
proof (intro conjI allI impI)
  fix w r1 w1
  assume step: "removeUnlessAutoRemove client c w = (r1, w1)"
  from removeUnlessAutoRemove_trace[OF step]
  show "filter is_remove (drop (length (trace w)) (trace w1)) =
        (if AutoRemove (HostConfig (containerInfo c)) then []
         else [EvContainerRemove (Container.ID c) \<lparr>Force = True, RemoveVolumes = False\<rparr> r1])"
    by (auto simp: filter_remove_removal_events)
next
  fix r w'
  assume run: "StopContainer client c timeout (init s) = (r, w')"
    and auto_remove: "AutoRemove (HostConfig (containerInfo c))"
  from run show "filter is_remove (trace w') = []"
  proof (cases rule: StopContainer_cases)
    case (kill_failed e)
    then show ?thesis by simp
  next
    case (remove_failed e wait1)
    with auto_remove show ?thesis by simp
  next
    case (confirmed wait1 wait2 e)
    then have "list_all (is_inspect (Container.ID c)) wait2"
      by (simp add: list_all_iff inspect_ok_is_inspect)
    with confirmed auto_remove show ?thesis
      by (simp add: filter_remove_inspects filter_remove_removal_events)
  next
    case (unconfirmed wait1 wait2)
    then have "list_all (is_inspect (Container.ID c)) wait2"
      by (simp add: list_all_iff inspect_ok_is_inspect)
    with unconfirmed auto_remove show ?thesis
      by (simp add: filter_remove_inspects filter_remove_removal_events)
  qed
next
  fix r w'
  assume run: "StopContainer client c timeout (init s) = (r, w')"
    and reached: "\<not> AutoRemove (HostConfig (containerInfo c)) \<and>
         EvContainerKill (Container.ID c) (signalFor c) None \<in> set (trace w')"
  from run show "\<exists>res. filter is_remove (trace w') =
              [EvContainerRemove (Container.ID c) \<lparr>Force = True, RemoveVolumes = False\<rparr> res]"
  proof (cases rule: StopContainer_cases)
    case (kill_failed e)
    with reached show ?thesis by simp
  next
    case (remove_failed e wait1)
    then show ?thesis by (simp add: filter_remove_inspects)
  next
    case (confirmed wait1 wait2 e)
    then have "list_all (is_inspect (Container.ID c)) wait2"
      by (simp add: list_all_iff inspect_ok_is_inspect)
    with confirmed reached show ?thesis
      by (simp add: filter_remove_inspects filter_remove_removal_events)
  next
    case (unconfirmed wait1 wait2)
    then have "list_all (is_inspect (Container.ID c)) wait2"
      by (simp add: list_all_iff inspect_ok_is_inspect)
    with unconfirmed reached show ?thesis
      by (simp add: filter_remove_inspects filter_remove_removal_events)
  qed
qed

lemma not_inspect_mem:
  "list_all (is_inspect cid) evs \<Longrightarrow> \<not> is_inspect cid ev \<Longrightarrow> ev \<notin> set evs"
  by (auto simp: list_all_iff)

lemma not_ok_mem:
  "list_all (inspect_ok cid) evs \<Longrightarrow> \<not> inspect_ok cid ev \<Longrightarrow> ev \<notin> set evs"
  by (auto simp: list_all_iff)

lemma kill_not_in_removal [simp]: "EvContainerKill a b k \<notin> set (removal_events c)"
  by (simp add: removal_events_def)

lemma inspect_not_in_removal [simp]: "EvContainerInspect a res \<notin> set (removal_events c)"
  by (simp add: removal_events_def)

lemma failed_remove_not_in_removal [simp]:
  "EvContainerRemove a opts (Some e) \<notin> set (removal_events c)"
  by (simp add: removal_events_def)

lemma last_wait:
  "list_all (inspect_ok cid) wait2 \<Longrightarrow>
   last (pre @ removal_events c @ wait2) \<noteq> EvContainerInspect a (Inl e) \<and>
   last (pre @ removal_events c @ wait2) \<noteq> EvContainerKill a b k \<and>
   last (pre @ removal_events c @ wait2) \<noteq> EvContainerRemove a opts (Some e)"
proof (cases "wait2 = []")
  case True
  have "last (removal_events c) \<in> set (removal_events c)" by simp
  then show ?thesis using True
    by (auto simp del: last_in_set)
next
  case False
  assume ok: "list_all (inspect_ok cid) wait2"
  from False have "last wait2 \<in> set wait2" by simp
  with ok have "inspect_ok cid (last wait2)" by (simp add: list_all_iff)
  with False show ?thesis by auto
qed

lemma waitForStop_fails_iff:
  assumes "waitForStop client c t w = (r1, w1)"
  shows "r1 = Some e \<longleftrightarrow> (\<exists>pre. trace w1 = trace w @ pre @ [EvContainerInspect (Container.ID c) (Inl e)])"
proof -
  from waitForStop_trace[OF assms] obtain evs where
    ok: "list_all (inspect_ok (Container.ID c)) evs" and
    tr: "trace w1 = trace w @ evs @
           (case r1 of None \<Rightarrow> [] | Some e \<Rightarrow> [EvContainerInspect (Container.ID c) (Inl e)])"
    by blast
  show ?thesis
  proof
    assume "r1 = Some e"
    with tr show "\<exists>pre. trace w1 = trace w @ pre @ [EvContainerInspect (Container.ID c) (Inl e)]"
      by auto
  next
    assume "\<exists>pre. trace w1 = trace w @ pre @ [EvContainerInspect (Container.ID c) (Inl e)]"
    then obtain pre where p: "trace w1 = trace w @ pre @ [EvContainerInspect (Container.ID c) (Inl e)]"
      by blast
    show "r1 = Some e"
    proof (cases r1)
      case None
      with tr p have "evs = pre @ [EvContainerInspect (Container.ID c) (Inl e)]" by simp
      with ok show ?thesis by simp
    next
      case (Some e')
      with tr p show ?thesis by simp
    qed
  qed
qed

text \<open>
  C4, as amended. An error of the kill call ends \<open>StopContainer\<close> at once, with no further
  call, and is the result; so does an error of the removal call. Every error that
  \<open>StopContainer\<close> returns is the error of its kill, the error of its removal, or its own
  \<open>could not be removed\<close>: an inspection error is never returned. On the contrary
  \<open>StopContainer\<close> returns \<open>nil\<close> exactly when its last event is a failed inspection.
  And \<open>waitForStop\<close> itself returns an error exactly when an inspection fails, with that
  error, whatever its kind.
\<close>
theorem StopContainer_error_propagation:
  assumes run: "StopContainer client c timeout (init s) = (r, w')"
  shows "(\<forall>e. EvContainerKill (Container.ID c) (signalFor c) (Some e) \<in> set (trace w') \<longrightarrow>
            r = Some e \<and>
            trace w' = [stopLog c, EvContainerKill (Container.ID c) (signalFor c) (Some e)])
       \<and> (\<forall>e. EvContainerRemove (Container.ID c) \<lparr>Force = True, RemoveVolumes = False\<rparr> (Some e)
                 \<in> set (trace w') \<longrightarrow>
            r = Some e \<and>
            last (trace w') =
              EvContainerRemove (Container.ID c) \<lparr>Force = True, RemoveVolumes = False\<rparr> (Some e))
       \<and> (\<forall>e. r = Some e \<longrightarrow>
            last (trace w') = EvContainerKill (Container.ID c) (signalFor c) (Some e)
          \<or> last (trace w') =
              EvContainerRemove (Container.ID c) \<lparr>Force = True, RemoveVolumes = False\<rparr> (Some e)
          \<or> e = Errorf ''Container %s (%s) could not be removed'' [Name c, Container.ID c])
       \<and> (r = None \<longleftrightarrow> (\<exists>e. last (trace w') = EvContainerInspect (Container.ID c) (Inl e)))
       \<and> (\<forall>w r1 w1 e. waitForStop client c timeout w = (r1, w1) \<longrightarrow>
            (r1 = Some e \<longleftrightarrow>
               (\<exists>pre. trace w1 = trace w @ pre @ [EvContainerInspect (Container.ID c) (Inl e)])))"
proof -
  have wait: "\<forall>w r1 w1 e. waitForStop client c timeout w = (r1, w1) \<longrightarrow>
            (r1 = Some e \<longleftrightarrow>
               (\<exists>pre. trace w1 = trace w @ pre @ [EvContainerInspect (Container.ID c) (Inl e)]))"
    using waitForStop_fails_iff by blast
  from run have "(\<forall>e. EvContainerKill (Container.ID c) (signalFor c) (Some e) \<in> set (trace w') \<longrightarrow>
            r = Some e \<and>
            trace w' = [stopLog c, EvContainerKill (Container.ID c) (signalFor c) (Some e)])
       \<and> (\<forall>e. EvContainerRemove (Container.ID c) \<lparr>Force = True, RemoveVolumes = False\<rparr> (Some e)
                 \<in> set (trace w') \<longrightarrow>
            r = Some e \<and>
            last (trace w') =
              EvContainerRemove (Container.ID c) \<lparr>Force = True, RemoveVolumes = False\<rparr> (Some e))
       \<and> (\<forall>e. r = Some e \<longrightarrow>
            last (trace w') = EvContainerKill (Container.ID c) (signalFor c) (Some e)
          \<or> last (trace w') =
              EvContainerRemove (Container.ID c) \<lparr>Force = True, RemoveVolumes = False\<rparr> (Some e)
          \<or> e = Errorf ''Container %s (%s) could not be removed'' [Name c, Container.ID c])
       \<and> (r = None \<longleftrightarrow> (\<exists>e. last (trace w') = EvContainerInspect (Container.ID c) (Inl e)))"
  proof (cases rule: StopContainer_cases)
    case (kill_failed e)
    then show ?thesis by auto
  next
    case (remove_failed e wait1)
    then show ?thesis by (auto dest: all_inspects_mem)
  next
    case (confirmed wait1 wait2 e)
    then show ?thesis by (auto dest: all_inspects_mem all_ok_mem)
  next
    case (unconfirmed wait1 wait2)
    from last_wait[OF unconfirmed(3), of "[stopLog c, EvContainerKill (Container.ID c) (signalFor c) None] @ wait1" c]
    have "\<And>a e b k opts. last (trace w') \<noteq> EvContainerInspect a (Inl e) \<and>
         last (trace w') \<noteq> EvContainerKill a b k \<and>
         last (trace w') \<noteq> EvContainerRemove a opts (Some e)"
      using unconfirmed(4) by simp
    with unconfirmed show ?thesis by (auto dest: all_inspects_mem all_ok_mem)
  qed
  with wait show ?thesis by blast
qed


lemma ok_not_gone: "inspect_ok cid ev \<Longrightarrow> \<not> observed_gone ev"
  by (cases "(cid, ev)" rule: inspect_ok.cases) auto

lemma ok_and_gone_empty:
  "list_all (inspect_ok cid) evs \<Longrightarrow> list_all observed_gone evs \<Longrightarrow> evs = []"
  by (cases evs) (auto dest: ok_not_gone)

text \<open>
  C8, as amended. Take a run of \<open>StopContainer\<close> in which every inspection answers "no
  such container". If the daemon rejects the kill, that error is the result and nothing
  else is called. If it accepts the kill and the container is not auto-remove, the
  removal is called again, exactly once. The result is \<open>nil\<close> exactly when the trace ends
  with the removal step, accepted or skipped, and one inspection answered not-found.
\<close>
theorem StopContainer_on_removed_container:
  assumes run: "StopContainer client c timeout (init s) = (r, w')"
    and gone: "list_all observed_gone (trace w')"
  shows "(\<forall>e. EvContainerKill (Container.ID c) (signalFor c) (Some e) \<in> set (trace w') \<longrightarrow>
            r = Some e \<and>
            trace w' = [stopLog c, EvContainerKill (Container.ID c) (signalFor c) (Some e)])
       \<and> (\<not> AutoRemove (HostConfig (containerInfo c)) \<and>
            EvContainerKill (Container.ID c) (signalFor c) None \<in> set (trace w') \<longrightarrow>
            (\<exists>res. filter is_remove (trace w') =
               [EvContainerRemove (Container.ID c) \<lparr>Force = True, RemoveVolumes = False\<rparr> res]))
       \<and> (r = None \<longleftrightarrow>
            (\<exists>pre e. IsErrNotFound e \<and>
               trace w' = pre @ removal_events c @ [EvContainerInspect (Container.ID c) (Inl e)]))"
  using run
proof (cases rule: StopContainer_cases)
  case (kill_failed e)
  have "last (pre @ removal_events c @ [EvContainerInspect (Container.ID c) (Inl e')])
          \<noteq> EvContainerKill (Container.ID c) (signalFor c) (Some e)" for pre e'
    by simp
  with kill_failed have "trace w' \<noteq> pre @ removal_events c @ [EvContainerInspect (Container.ID c) (Inl e')]"
    for pre e' by (metis last.simps last_appendR list.distinct(1) append_Cons append_Nil)
  with kill_failed show ?thesis by auto
next
  case (remove_failed e wait1)
  have "trace w' \<noteq> pre @ removal_events c @ [EvContainerInspect (Container.ID c) (Inl e')]"
    for pre e'
  proof
    assume "trace w' = pre @ removal_events c @ [EvContainerInspect (Container.ID c) (Inl e')]"
    then have "last (trace w') = EvContainerInspect (Container.ID c) (Inl e')" by simp
    with remove_failed(4) show False by simp
  qed
  with remove_failed show ?thesis
    by (auto simp: filter_remove_inspects dest: all_inspects_mem)
next
  case (confirmed wait1 wait2 e)
  from gone confirmed(4) have g2: "list_all observed_gone wait2" and ge: "IsErrNotFound e"
    by simp_all
  from ok_and_gone_empty[OF confirmed(3) g2] have w2: "wait2 = []" .
  have "\<exists>pre e. IsErrNotFound e \<and>
               trace w' = pre @ removal_events c @ [EvContainerInspect (Container.ID c) (Inl e)]"
    using confirmed(4) w2 ge
    by (intro exI[of _ "[stopLog c, EvContainerKill (Container.ID c) (signalFor c) None] @ wait1"]
              exI[of _ e]) simp
  with confirmed w2 show ?thesis
    by (auto simp: filter_remove_inspects filter_remove_removal_events dest: all_inspects_mem)
next
  case (unconfirmed wait1 wait2)
  from last_wait[OF unconfirmed(3), of "[stopLog c, EvContainerKill (Container.ID c) (signalFor c) None] @ wait1" c]
  have l: "\<And>a e. last (trace w') \<noteq> EvContainerInspect a (Inl e)"
    using unconfirmed(4) by simp
  have n: "trace w' \<noteq> pre @ removal_events c @ [EvContainerInspect (Container.ID c) (Inl e')]"
    for pre e'
  proof
    assume "trace w' = pre @ removal_events c @ [EvContainerInspect (Container.ID c) (Inl e')]"
    then have "last (trace w') = EvContainerInspect (Container.ID c) (Inl e')" by simp
    with l show False by blast
  qed
  from unconfirmed have "list_all (is_inspect (Container.ID c)) wait2"
    by (simp add: list_all_iff inspect_ok_is_inspect)
  with unconfirmed n show ?thesis
    by (auto simp: filter_remove_inspects filter_remove_removal_events dest: all_inspects_mem)
qed

theorem StopContainer_removal_calls_witness:
  "filter is_remove (trace (snd (StopContainer \<lparr>api = dockerd, pullImages = False\<rparr> web 10 (init 0)))) =
     [EvContainerRemove ''c1'' \<lparr>Force = True, RemoveVolumes = False\<rparr> None]
   \<and> filter is_remove
        (trace (snd (StopContainer \<lparr>api = dockerd, pullImages = False\<rparr> web_autoremove 10 (init 0)))) = []"
proof -
  let ?run1 = "StopContainer \<lparr>api = dockerd, pullImages = False\<rparr> web 10 (init 0)"
  let ?run2 = "StopContainer \<lparr>api = dockerd, pullImages = False\<rparr> web_autoremove 10 (init 0)"
  have run1: "?run1 = (fst ?run1, snd ?run1)" and run2: "?run2 = (fst ?run2, snd ?run2)"
    by simp_all
  have reached: "\<not> AutoRemove (HostConfig (containerInfo web)) \<and>
      EvContainerKill (Container.ID web) (signalFor web) None \<in> set (trace (snd ?run1))"
    by (simp add: stop_run_defs)
  have skipped: "AutoRemove (HostConfig (containerInfo web_autoremove))"
    by (simp add: web_autoremove_def)
  note c6 = StopContainer_removal_calls[of "\<lparr>api = dockerd, pullImages = False\<rparr>" _ 10 0,
              THEN conjunct2, rule_format]
  from c6[OF run1, THEN conjunct2, rule_format, OF reached]
  obtain res where "filter is_remove (trace (snd ?run1)) =
      [EvContainerRemove (Container.ID web) \<lparr>Force = True, RemoveVolumes = False\<rparr> res]"
    by blast
  moreover have "filter is_remove (trace (snd ?run1)) =
      [EvContainerRemove ''c1'' \<lparr>Force = True, RemoveVolumes = False\<rparr> None]"
    by (simp add: stop_run_defs)
  moreover from c6[OF run2, THEN conjunct1, rule_format, OF skipped]
  have "filter is_remove (trace (snd ?run2)) = []" .
  ultimately show ?thesis by simp
qed

text \<open>
  The claim C4 as stated fails: on a daemon where the container is gone, \<open>waitForStop\<close>
  returns the not-found error of the inspection, so a not-found answer does fail the wait;
  and on a daemon that cannot be reached for inspections, \<open>StopContainer\<close> returns \<open>nil\<close>.
\<close>

theorem waitForStop_not_found_counterexample:
  "fst (waitForStop \<lparr>api = dockerd_gone, pullImages = False\<rparr> web 10 (init 0)) =
     Some (ErrNotFound ''No such container: c1'')
   \<and> IsErrNotFound (ErrNotFound ''No such container: c1'')
   \<and> fst (StopContainer \<lparr>api = dockerd_unreachable, pullImages = False\<rparr> web 10 (init 0)) = None"
  by (simp add: stop_run_defs)

theorem StopContainer_error_propagation_witness:
  "StopContainer \<lparr>api = dockerd_no_kill, pullImages = False\<rparr> web 10 (init 0) =
     (Some (ErrDaemon ''cannot kill''),
      \<lparr>daemon = 0,
       trace = [stopLog web, EvContainerKill ''c1'' ''SIGTERM'' (Some (ErrDaemon ''cannot kill''))]\<rparr>)
   \<and> StopContainer \<lparr>api = dockerd_no_remove, pullImages = False\<rparr> web 10 (init 0) =
     (Some (ErrDaemon ''cannot remove''),
      \<lparr>daemon = 2,
       trace = [stopLog web, EvContainerKill ''c1'' ''SIGTERM'' None,
                EvContainerInspect ''c1'' (Inr (containerInfo web)),
                EvContainerInspect ''c1'' (Inl (ErrNotFound ''No such container: c1'')),
                Log DebugLevel ''Removing container %s'' [ArgStr ''c1''],
                EvContainerRemove ''c1'' \<lparr>Force = True, RemoveVolumes = False\<rparr>
                  (Some (ErrDaemon ''cannot remove''))]\<rparr>)"
proof -
  let ?W1 = "\<lparr>daemon = 0::nat,
       trace = [stopLog web, EvContainerKill ''c1'' ''SIGTERM'' (Some (ErrDaemon ''cannot kill''))]\<rparr>"
  let ?W2 = "\<lparr>daemon = 2::nat,
       trace = [stopLog web, EvContainerKill ''c1'' ''SIGTERM'' None,
                EvContainerInspect ''c1'' (Inr (containerInfo web)),
                EvContainerInspect ''c1'' (Inl (ErrNotFound ''No such container: c1'')),
                Log DebugLevel ''Removing container %s'' [ArgStr ''c1''],
                EvContainerRemove ''c1'' \<lparr>Force = True, RemoveVolumes = False\<rparr>
                  (Some (ErrDaemon ''cannot remove''))]\<rparr>"
  have run1: "StopContainer \<lparr>api = dockerd_no_kill, pullImages = False\<rparr> web 10 (init 0) =
     (Some (ErrDaemon ''cannot kill''), ?W1)"
    by (simp add: stop_run_defs stopLog_def)
  have run2: "StopContainer \<lparr>api = dockerd_no_remove, pullImages = False\<rparr> web 10 (init 0) =
     (Some (ErrDaemon ''cannot remove''), ?W2)"
    by (simp add: stop_run_defs stopLog_def)
  have k: "EvContainerKill (Container.ID web) (signalFor web) (Some (ErrDaemon ''cannot kill''))
             \<in> set (trace ?W1)"
    by (simp add: web_def signalFor_def defaultStopSignal_def)
  have r: "EvContainerRemove (Container.ID web) \<lparr>Force = True, RemoveVolumes = False\<rparr>
             (Some (ErrDaemon ''cannot remove'')) \<in> set (trace ?W2)"
    by (simp add: web_def)
  note kill_rejected = StopContainer_error_propagation[OF run1, THEN conjunct1, rule_format, OF k]
  note remove_rejected =
    StopContainer_error_propagation[OF run2, THEN conjunct2, THEN conjunct1, rule_format, OF r]
  from kill_rejected
  have "trace ?W1 = [stopLog web, EvContainerKill (Container.ID web) (signalFor web)
                       (Some (ErrDaemon ''cannot kill''))]"
    by (rule conjunct2)
  moreover from remove_rejected
  have "last (trace ?W2) = EvContainerRemove (Container.ID web)
          \<lparr>Force = True, RemoveVolumes = False\<rparr> (Some (ErrDaemon ''cannot remove''))"
    by (rule conjunct2)
  ultimately show ?thesis using run1 run2 by simp
qed

text \<open>
  The claim C8 as stated fails: on a daemon that answers "no such container" to every call,
  \<open>StopContainer\<close> returns the error of the kill; and on a test double that accepts the
  kill and the removal of the missing container, the removal is called again.
\<close>

theorem StopContainer_on_removed_container_counterexample:
  "fst (StopContainer \<lparr>api = dockerd_gone, pullImages = False\<rparr> web 10 (init 0)) =
     Some (ErrNotFound ''No such container: c1'')
   \<and> filter is_remove
        (trace (snd (StopContainer \<lparr>api = dockerd_gone_lenient, pullImages = False\<rparr> web 10 (init 0)))) =
       [EvContainerRemove ''c1'' \<lparr>Force = True, RemoveVolumes = False\<rparr> None]"
  by (simp add: stop_run_defs)

theorem StopContainer_on_removed_container_witness:
  "StopContainer \<lparr>api = dockerd_gone, pullImages = False\<rparr> web 10 (init 0) =
     (Some (ErrNotFound ''No such container: c1''),
      \<lparr>daemon = 0,
       trace = [stopLog web,
                EvContainerKill ''c1'' ''SIGTERM'' (Some (ErrNotFound ''No such container: c1''))]\<rparr>)
   \<and> StopContainer \<lparr>api = dockerd_gone_lenient, pullImages = False\<rparr> web_autoremove 10 (init 0) =
     (None,
      \<lparr>daemon = 2,
       trace = [stopLog web, EvContainerKill ''c1'' ''SIGTERM'' None,
                EvContainerInspect ''c1'' (Inl (ErrNotFound ''No such container: c1'')),
                Log DebugLevel ''AutoRemove container %s, skipping ContainerRemove call.''
                  [ArgStr ''c1''],
                EvContainerInspect ''c1'' (Inl (ErrNotFound ''No such container: c1''))]\<rparr>)"
proof -
  let ?W1 = "\<lparr>daemon = 0::nat,
       trace = [stopLog web,
                EvContainerKill ''c1'' ''SIGTERM'' (Some (ErrNotFound ''No such container: c1''))]\<rparr>"
  let ?W2 = "\<lparr>daemon = 2::nat,
       trace = [stopLog web, EvContainerKill ''c1'' ''SIGTERM'' None,
                EvContainerInspect ''c1'' (Inl (ErrNotFound ''No such container: c1'')),
                Log DebugLevel ''AutoRemove container %s, skipping ContainerRemove call.''
                  [ArgStr ''c1''],
                EvContainerInspect ''c1'' (Inl (ErrNotFound ''No such container: c1''))]\<rparr>"
  have run1: "StopContainer \<lparr>api = dockerd_gone, pullImages = False\<rparr> web 10 (init 0) =
     (Some (ErrNotFound ''No such container: c1''), ?W1)"
    by (simp add: stop_run_defs stopLog_def)
  have run2: "StopContainer \<lparr>api = dockerd_gone_lenient, pullImages = False\<rparr> web_autoremove 10 (init 0) =
     (None, ?W2)"
    by (simp add: stop_run_defs stopLog_def)
  have gone1: "list_all observed_gone (trace ?W1)"
    by (simp add: stopLog_def)
  have gone2: "list_all observed_gone (trace ?W2)"
    by (simp add: stopLog_def)
  have k: "EvContainerKill (Container.ID web) (signalFor web)
             (Some (ErrNotFound ''No such container: c1'')) \<in> set (trace ?W1)"
    by (simp add: web_def signalFor_def defaultStopSignal_def)
  from StopContainer_on_removed_container[OF run1 gone1] k
  have "trace ?W1 = [stopLog web, EvContainerKill (Container.ID web) (signalFor web)
                       (Some (ErrNotFound ''No such container: c1''))]"
    by blast
  moreover from StopContainer_on_removed_container[OF run2 gone2]
  have "\<exists>pre e. IsErrNotFound e \<and>
          trace ?W2 = pre @ removal_events web_autoremove @
                        [EvContainerInspect (Container.ID web_autoremove) (Inl e)]"
    by blast
  ultimately show ?thesis using run1 run2 by simp
qed

section \<open>Claims about \<open>StartContainer\<close>\<close>

lemma range_entries_Nil [simp]: "range_entries m [] = []"
  by (simp add: range_entries_def)

lemma range_entries_Cons:
  "range_entries m (k # ks) =
     (case m k of None \<Rightarrow> range_entries m ks | Some v \<Rightarrow> (k, v) # range_entries m ks)"
  by (simp add: range_entries_def split: option.splits)

lemma range_entries_mem: "(k, v) \<in> set (range_entries m ks) \<Longrightarrow> m k = Some v \<and> k \<in> set ks"
  by (induction ks) (auto simp: range_entries_Cons split: option.splits)

lemma range_entries_first:
  assumes "range_order m ks" "m \<noteq> Map.empty"
  shows "\<exists>k v rest. m k = Some v \<and> range_entries m ks = (k, v) # rest"
proof -
  from assms have "dom m \<noteq> {}" by auto
  with assms obtain k ks' where ks: "ks = k # ks'" "k \<in> dom m"
    by (cases ks) (auto simp: range_order_def)
  then obtain v where "m k = Some v" by auto
  with ks show ?thesis by (auto simp: range_entries_Cons)
qed

lemma disconnect_loop_trace:
  "disconnect_loop client cid ks w = (r, w') \<Longrightarrow>
   (r = None \<and> trace w' = trace w @ map (\<lambda>k. EvNetworkDisconnect k cid True None) ks)
   \<or> (\<exists>e pre k post. r = Some e \<and> ks = pre @ k # post \<and>
        trace w' = trace w @ map (\<lambda>k. EvNetworkDisconnect k cid True None) pre @
                     [EvNetworkDisconnect k cid True (Some e)])"
proof (induction ks arbitrary: w)
  case Nil
  then show ?case by auto
next
  case (Cons k ks)
  obtain a w1 where c1: "call (NetworkDisconnect (api client) k cid True)
                           (EvNetworkDisconnect k cid True) w = (a, w1)"
    by (cases "call (NetworkDisconnect (api client) k cid True) (EvNetworkDisconnect k cid True) w")
  then have t1: "trace w1 = trace w @ [EvNetworkDisconnect k cid True a]"
    using call_trace by fastforce
  show ?case
  proof (cases a)
    case (Some e)
    with Cons.prems c1 have "r = Some e" "w' = w1" by auto
    with t1 Some show ?thesis
      by (intro disjI2 exI[of _ e] exI[of _ "[]"] exI[of _ k] exI[of _ ks]) simp
  next
    case None
    with Cons.prems c1 have "disconnect_loop client cid ks w1 = (r, w')" by simp
    from Cons.IH[OF this] show ?thesis
    proof
      assume "r = None \<and> trace w' = trace w1 @ map (\<lambda>k. EvNetworkDisconnect k cid True None) ks"
      with t1 None show ?thesis by simp
    next
      assume "\<exists>e pre k post. r = Some e \<and> ks = pre @ k # post \<and>
        trace w' = trace w1 @ map (\<lambda>k. EvNetworkDisconnect k cid True None) pre @
                     [EvNetworkDisconnect k cid True (Some e)]"
      then obtain e pre k' post where "r = Some e" "ks = pre @ k' # post"
        "trace w' = trace w1 @ map (\<lambda>k. EvNetworkDisconnect k cid True None) pre @
                     [EvNetworkDisconnect k' cid True (Some e)]" by blast
      with t1 None show ?thesis
        by (intro disjI2 exI[of _ e] exI[of _ "k # pre"] exI[of _ k'] exI[of _ post]) simp
    qed
  qed
qed

lemma connect_loop_trace:
  "connect_loop client cid kvs w = (r, w') \<Longrightarrow>
   (r = None \<and> trace w' = trace w @ map (\<lambda>(k, v). EvNetworkConnect k cid v None) kvs)
   \<or> (\<exists>e pre k v post. r = Some e \<and> kvs = pre @ (k, v) # post \<and>
        trace w' = trace w @ map (\<lambda>(k, v). EvNetworkConnect k cid v None) pre @
                     [EvNetworkConnect k cid v (Some e)])"
proof (induction kvs arbitrary: w)
  case Nil
  then show ?case by auto
next
  case (Cons kv kvs)
  obtain k v where kv: "kv = (k, v)" by (cases kv)
  obtain a w1 where c1: "call (NetworkConnect (api client) k cid v)
                           (EvNetworkConnect k cid v) w = (a, w1)"
    by (cases "call (NetworkConnect (api client) k cid v) (EvNetworkConnect k cid v) w")
  then have t1: "trace w1 = trace w @ [EvNetworkConnect k cid v a]"
    using call_trace by fastforce
  show ?case
  proof (cases a)
    case (Some e)
    with Cons.prems c1 kv have "r = Some e" "w' = w1" by auto
    with t1 Some kv show ?thesis
      by (intro disjI2 exI[of _ e] exI[of _ "[]"] exI[of _ k] exI[of _ v] exI[of _ kvs]) simp
  next
    case None
    with Cons.prems c1 kv have "connect_loop client cid kvs w1 = (r, w')" by simp
    from Cons.IH[OF this] show ?thesis
    proof
      assume "r = None \<and> trace w' = trace w1 @ map (\<lambda>(k, v). EvNetworkConnect k cid v None) kvs"
      with t1 None kv show ?thesis by simp
    next
      assume "\<exists>e pre k v post. r = Some e \<and> kvs = pre @ (k, v) # post \<and>
        trace w' = trace w1 @ map (\<lambda>(k, v). EvNetworkConnect k cid v None) pre @
                     [EvNetworkConnect k cid v (Some e)]"
      then obtain e pre k' v' post where "r = Some e" "kvs = pre @ (k', v') # post"
        "trace w' = trace w1 @ map (\<lambda>(k, v). EvNetworkConnect k cid v None) pre @
                     [EvNetworkConnect k' cid v' (Some e)]" by blast
      with t1 None kv show ?thesis
        by (intro disjI2 exI[of _ e] exI[of _ "(k, v) # pre"] exI[of _ k'] exI[of _ v'] exI[of _ post]) simp
    qed
  qed
qed

lemma filter_call_disconnects [simp]:
  "filter is_call (map (\<lambda>k. EvNetworkDisconnect k cid True None) ks) =
     map (\<lambda>k. EvNetworkDisconnect k cid True None) ks"
  by (induction ks) auto

lemma filter_call_connects [simp]:
  "filter is_call (map (\<lambda>(k, v). EvNetworkConnect k cid v None) kvs) =
     map (\<lambda>(k, v). EvNetworkConnect k cid v None) kvs"
  by (induction kvs) auto

lemma StartContainer_cases [consumes 1, case_names create_failed host disconnect_failed connect_failed networked]:
  assumes run: "StartContainer client c ord1 ord2 w = (r, w')"
  obtains
    (create_failed) e where "r = Inl e"
      "trace w' = trace w @
         [Log InfoLevel ''Creating %s'' [ArgStr (Name c)],
          EvContainerCreate (runtimeConfig c) (hostConfig c) (simpleNetworkConfig c ord1)
            (Name c) (Inl e)]"
  | (host) body res where "IsHost (NetworkMode (hostConfig c))"
      "r = (case res of None \<Rightarrow> Inr (ContainerCreateCreatedBody.ID body) | Some e \<Rightarrow> Inl e)"
      "trace w' = trace w @
         [Log InfoLevel ''Creating %s'' [ArgStr (Name c)],
          EvContainerCreate (runtimeConfig c) (hostConfig c) (simpleNetworkConfig c ord1)
            (Name c) (Inr body),
          Log DebugLevel ''Starting container %s (%s)''
            [ArgStr (Name c), ArgStr (ContainerCreateCreatedBody.ID body)],
          EvContainerStart (ContainerCreateCreatedBody.ID body) res]"
  | (disconnect_failed) body e pre k post where "\<not> IsHost (NetworkMode (hostConfig c))"
      "r = Inl e" "map fst (oneEndpoint c ord1) = pre @ k # post"
      "trace w' = trace w @
         [Log InfoLevel ''Creating %s'' [ArgStr (Name c)],
          EvContainerCreate (runtimeConfig c) (hostConfig c) (simpleNetworkConfig c ord1)
            (Name c) (Inr body)] @
         map (\<lambda>k. EvNetworkDisconnect k (ContainerCreateCreatedBody.ID body) True None) pre @
         [EvNetworkDisconnect k (ContainerCreateCreatedBody.ID body) True (Some e)]"
  | (connect_failed) body e pre k v post where "\<not> IsHost (NetworkMode (hostConfig c))"
      "r = Inl e"
      "range_entries (Networks (NetworkSettings (containerInfo c))) ord2 = pre @ (k, v) # post"
      "trace w' = trace w @
         [Log InfoLevel ''Creating %s'' [ArgStr (Name c)],
          EvContainerCreate (runtimeConfig c) (hostConfig c) (simpleNetworkConfig c ord1)
            (Name c) (Inr body)] @
         map (\<lambda>k. EvNetworkDisconnect k (ContainerCreateCreatedBody.ID body) True None)
           (map fst (oneEndpoint c ord1)) @
         map (\<lambda>(k, v). EvNetworkConnect k (ContainerCreateCreatedBody.ID body) v None) pre @
         [EvNetworkConnect k (ContainerCreateCreatedBody.ID body) v (Some e)]"
  | (networked) body res where "\<not> IsHost (NetworkMode (hostConfig c))"
      "r = (case res of None \<Rightarrow> Inr (ContainerCreateCreatedBody.ID body) | Some e \<Rightarrow> Inl e)"
      "trace w' = trace w @
         [Log InfoLevel ''Creating %s'' [ArgStr (Name c)],
          EvContainerCreate (runtimeConfig c) (hostConfig c) (simpleNetworkConfig c ord1)
            (Name c) (Inr body)] @
         map (\<lambda>k. EvNetworkDisconnect k (ContainerCreateCreatedBody.ID body) True None)
           (map fst (oneEndpoint c ord1)) @
         map (\<lambda>(k, v). EvNetworkConnect k (ContainerCreateCreatedBody.ID body) v None)
           (range_entries (Networks (NetworkSettings (containerInfo c))) ord2) @
         [Log DebugLevel ''Starting container %s (%s)''
            [ArgStr (Name c), ArgStr (ContainerCreateCreatedBody.ID body)],
          EvContainerStart (ContainerCreateCreatedBody.ID body) res]"
proof -
  let ?w1 = "logf InfoLevel ''Creating %s'' [ArgStr (Name c)] w"
  let ?nets = "Networks (NetworkSettings (containerInfo c))"
  obtain cr w2 where create:
    "call (ContainerCreate (api client) (runtimeConfig c) (hostConfig c)
             (simpleNetworkConfig c ord1) (Name c))
          (EvContainerCreate (runtimeConfig c) (hostConfig c) (simpleNetworkConfig c ord1) (Name c))
          ?w1 = (cr, w2)"
    by (cases "call (ContainerCreate (api client) (runtimeConfig c) (hostConfig c)
             (simpleNetworkConfig c ord1) (Name c))
          (EvContainerCreate (runtimeConfig c) (hostConfig c) (simpleNetworkConfig c ord1) (Name c))
          ?w1")
  then have t2: "trace w2 = trace w @
         [Log InfoLevel ''Creating %s'' [ArgStr (Name c)],
          EvContainerCreate (runtimeConfig c) (hostConfig c) (simpleNetworkConfig c ord1)
            (Name c) cr]"
    by (auto dest!: call_trace)
  show thesis
  proof (cases cr)
    case (Inl e)
    with run create have "r = Inl e" "w' = w2"
      by (auto simp: StartContainer_def Let_def)
    with t2 Inl show thesis by (intro create_failed[of e]) auto
  next
    case (Inr body)
    let ?cid = "ContainerCreateCreatedBody.ID body"
    have start: "\<And>w4. \<exists>res w6.
        call (ContainerStart (api client) ?cid) (EvContainerStart ?cid)
          (logf DebugLevel ''Starting container %s (%s)'' [ArgStr (Name c), ArgStr ?cid] w4)
          = (res, w6) \<and>
        trace w6 = trace w4 @
          [Log DebugLevel ''Starting container %s (%s)'' [ArgStr (Name c), ArgStr ?cid],
           EvContainerStart ?cid res]"
    proof -
      fix w4 :: "'a world"
      obtain res w6 where st:
        "call (ContainerStart (api client) ?cid) (EvContainerStart ?cid)
          (logf DebugLevel ''Starting container %s (%s)'' [ArgStr (Name c), ArgStr ?cid] w4)
          = (res, w6)"
        by (cases "call (ContainerStart (api client) ?cid) (EvContainerStart ?cid)
          (logf DebugLevel ''Starting container %s (%s)'' [ArgStr (Name c), ArgStr ?cid] w4)")
      then have "trace w6 = trace w4 @
          [Log DebugLevel ''Starting container %s (%s)'' [ArgStr (Name c), ArgStr ?cid],
           EvContainerStart ?cid res]"
        by (auto dest!: call_trace)
      with st show "\<exists>res w6.
        call (ContainerStart (api client) ?cid) (EvContainerStart ?cid)
          (logf DebugLevel ''Starting container %s (%s)'' [ArgStr (Name c), ArgStr ?cid] w4)
          = (res, w6) \<and>
        trace w6 = trace w4 @
          [Log DebugLevel ''Starting container %s (%s)'' [ArgStr (Name c), ArgStr ?cid],
           EvContainerStart ?cid res]" by blast
    qed
    show thesis
    proof (cases "IsHost (NetworkMode (hostConfig c))")
      case True
      from start[of w2] obtain res w6 where st:
        "call (ContainerStart (api client) ?cid) (EvContainerStart ?cid)
          (logf DebugLevel ''Starting container %s (%s)'' [ArgStr (Name c), ArgStr ?cid] w2)
          = (res, w6)"
        and t6: "trace w6 = trace w2 @
          [Log DebugLevel ''Starting container %s (%s)'' [ArgStr (Name c), ArgStr ?cid],
           EvContainerStart ?cid res]" by blast
      from run create Inr True st have
        "r = (case res of None \<Rightarrow> Inr ?cid | Some e \<Rightarrow> Inl e)" "w' = w6"
        by (auto simp: StartContainer_def Let_def split: option.splits)
      with t2 t6 Inr True show thesis by (intro host[of body res]) auto
    next
      case False
      obtain dr w3 where disc:
        "disconnect_loop client ?cid (map fst (oneEndpoint c ord1)) w2 = (dr, w3)"
        by (cases "disconnect_loop client ?cid (map fst (oneEndpoint c ord1)) w2")
      from disconnect_loop_trace[OF disc] show thesis
      proof
        assume "\<exists>e pre k post. dr = Some e \<and> map fst (oneEndpoint c ord1) = pre @ k # post \<and>
          trace w3 = trace w2 @ map (\<lambda>k. EvNetworkDisconnect k ?cid True None) pre @
                     [EvNetworkDisconnect k ?cid True (Some e)]"
        then obtain e pre k post where d: "dr = Some e"
          "map fst (oneEndpoint c ord1) = pre @ k # post"
          "trace w3 = trace w2 @ map (\<lambda>k. EvNetworkDisconnect k ?cid True None) pre @
                     [EvNetworkDisconnect k ?cid True (Some e)]" by blast
        from run create Inr False disc d(1) have "r = Inl e" "w' = w3"
          by (auto simp: StartContainer_def Let_def)
        with d t2 Inr False show thesis
          by (intro disconnect_failed[of e pre k post body]) auto
      next
        assume "dr = None \<and> trace w3 = trace w2 @
                  map (\<lambda>k. EvNetworkDisconnect k ?cid True None) (map fst (oneEndpoint c ord1))"
        then have d: "dr = None" and t3: "trace w3 = trace w2 @
                  map (\<lambda>k. EvNetworkDisconnect k ?cid True None) (map fst (oneEndpoint c ord1))"
          by simp_all
        obtain kr w4 where conn: "connect_loop client ?cid (range_entries ?nets ord2) w3 = (kr, w4)"
          by (cases "connect_loop client ?cid (range_entries ?nets ord2) w3")
        from connect_loop_trace[OF conn] show thesis
        proof
          assume "\<exists>e pre k v post. kr = Some e \<and> range_entries ?nets ord2 = pre @ (k, v) # post \<and>
            trace w4 = trace w3 @ map (\<lambda>(k, v). EvNetworkConnect k ?cid v None) pre @
                     [EvNetworkConnect k ?cid v (Some e)]"
          then obtain e pre k v post where k: "kr = Some e"
            "range_entries ?nets ord2 = pre @ (k, v) # post"
            "trace w4 = trace w3 @ map (\<lambda>(k, v). EvNetworkConnect k ?cid v None) pre @
                     [EvNetworkConnect k ?cid v (Some e)]" by blast
          from run create Inr False disc d conn k(1) have "r = Inl e" "w' = w4"
            by (auto simp: StartContainer_def Let_def)
          with k t2 t3 Inr False show thesis
            by (intro connect_failed[of e pre k v post body]) auto
        next
          assume "kr = None \<and> trace w4 = trace w3 @
                    map (\<lambda>(k, v). EvNetworkConnect k ?cid v None) (range_entries ?nets ord2)"
          then have k: "kr = None" and t4: "trace w4 = trace w3 @
                    map (\<lambda>(k, v). EvNetworkConnect k ?cid v None) (range_entries ?nets ord2)"
            by simp_all
          from start[of w4] obtain res w6 where st:
            "call (ContainerStart (api client) ?cid) (EvContainerStart ?cid)
              (logf DebugLevel ''Starting container %s (%s)'' [ArgStr (Name c), ArgStr ?cid] w4)
              = (res, w6)"
            and t6: "trace w6 = trace w4 @
              [Log DebugLevel ''Starting container %s (%s)'' [ArgStr (Name c), ArgStr ?cid],
               EvContainerStart ?cid res]" by blast
          from run create Inr False disc d conn k st have
            "r = (case res of None \<Rightarrow> Inr ?cid | Some e \<Rightarrow> Inl e)" "w' = w6"
            by (auto simp: StartContainer_def Let_def split: option.splits)
          with t2 t3 t4 t6 Inr False show thesis
            by (intro networked[of body res]) auto
        qed
      qed
    qed
  qed
qed

lemma filter_network_disconnects [simp]:
  "filter is_network_call (map (\<lambda>k. EvNetworkDisconnect k cid True None) ks) =
     map (\<lambda>k. EvNetworkDisconnect k cid True None) ks"
  by (induction ks) auto

text \<open>
  C7. When the network mode of the container's host config is host mode, the trace of
  \<open>StartContainer\<close> holds no network disconnect and no network connect call, and every
  call in it is a create or a start: the create alone when it fails, the create and then
  the start of the created container otherwise.
\<close>
theorem StartContainer_host_mode_no_network_calls:
  assumes host: "IsHost (NetworkMode (hostConfig c))"
    and run: "StartContainer client c ord1 ord2 (init s) = (r, w')"
  shows "filter is_network_call (trace w') = []
       \<and> list_all is_create_or_start (filter is_call (trace w'))
       \<and> ((\<exists>e. r = Inl e \<and>
              filter is_call (trace w') =
                [EvContainerCreate (runtimeConfig c) (hostConfig c) (simpleNetworkConfig c ord1)
                   (Name c) (Inl e)])
          \<or> (\<exists>body e. r = Inl e \<and>
              filter is_call (trace w') =
                [EvContainerCreate (runtimeConfig c) (hostConfig c) (simpleNetworkConfig c ord1)
                   (Name c) (Inr body),
                 EvContainerStart (ContainerCreateCreatedBody.ID body) (Some e)])
          \<or> (\<exists>body. r = Inr (ContainerCreateCreatedBody.ID body) \<and>
              filter is_call (trace w') =
                [EvContainerCreate (runtimeConfig c) (hostConfig c) (simpleNetworkConfig c ord1)
                   (Name c) (Inr body),
                 EvContainerStart (ContainerCreateCreatedBody.ID body) None]))"
  using run
proof (cases rule: StartContainer_cases)
  case (create_failed e)
  then show ?thesis by simp
next
  case (host body res)
  show ?thesis
  proof (cases res)
    case None
    with host show ?thesis by auto
  next
    case (Some e)
    with host show ?thesis by auto
  qed
qed (use host in simp_all)


lemma range_entries_distinct: "distinct ks \<Longrightarrow> distinct (map fst (range_entries m ks))"
  by (induction ks) (auto simp: range_entries_Cons split: option.splits dest: range_entries_mem)

lemma map_of_range_entries_at:
  "map_of (range_entries m ks) x = (if x \<in> set ks then m x else None)"
  by (induction ks) (auto simp: range_entries_Cons split: option.splits)

lemma map_of_range_entries: "range_order m ks \<Longrightarrow> map_of (range_entries m ks) = m"
  by (rule ext) (auto simp: map_of_range_entries_at range_order_def)

lemma fold_attach_connects:
  "fold (attach cid) (map (\<lambda>(k, v). EvNetworkConnect k cid v None) (range_entries nets ks)) m =
     (\<lambda>x. if x \<in> set ks \<and> nets x \<noteq> None then nets x else m x)"
proof (induction ks arbitrary: m)
  case Nil
  then show ?case by simp
next
  case (Cons k ks)
  show ?case
  proof (cases "nets k")
    case None
    with Cons show ?thesis by (auto simp: range_entries_Cons fun_eq_iff)
  next
    case (Some v)
    with Cons show ?thesis by (auto simp: range_entries_Cons fun_eq_iff)
  qed
qed

lemma fold_attach_connects_all:
  assumes "range_order nets ks"
  shows "fold (attach cid) (map (\<lambda>(k, v). EvNetworkConnect k cid v None) (range_entries nets ks))
           Map.empty = nets"
  using assms by (auto simp: fold_attach_connects range_order_def fun_eq_iff)

lemma oneEndpoint_first:
  assumes "range_order (Networks (NetworkSettings (containerInfo c))) ord1"
    and "Networks (NetworkSettings (containerInfo c)) \<noteq> Map.empty"
  shows "\<exists>k v. Networks (NetworkSettings (containerInfo c)) k = Some v \<and>
               oneEndpoint c ord1 = [(k, v)]"
proof -
  from range_entries_first[OF assms] obtain k v rest where
    "Networks (NetworkSettings (containerInfo c)) k = Some v"
    "range_entries (Networks (NetworkSettings (containerInfo c))) ord1 = (k, v) # rest"
    by blast
  then show ?thesis by (auto simp: oneEndpoint_def)
qed

text \<open>
  C3, as amended. Take a container whose network mapping is not empty and a run of
  \<open>StartContainer\<close> that succeeds, with any order of the two iterations over the mapping.
  The new container is created with exactly one entry \<open>k \<mapsto> v\<close> of the mapping. In host
  mode the start follows at once. Otherwise the calls are: the forced disconnect from
  \<open>k\<close>; one connect per entry of the full mapping, with the endpoint settings of that
  entry; the start. The attachment of the new container is then the original mapping,
  whichever entry was chosen at creation.
\<close>
theorem StartContainer_restores_networks:
  assumes nonempty: "Networks (NetworkSettings (containerInfo c)) \<noteq> Map.empty"
    and ord1: "range_order (Networks (NetworkSettings (containerInfo c))) ord1"
    and ord2: "range_order (Networks (NetworkSettings (containerInfo c))) ord2"
    and run: "StartContainer client c ord1 ord2 (init s) = (Inr newID, w')"
  shows "\<exists>k v. Networks (NetworkSettings (containerInfo c)) k = Some v
      \<and> filter is_call (trace w') =
          EvContainerCreate (runtimeConfig c) (hostConfig c) \<lparr>EndpointsConfig = [k \<mapsto> v]\<rparr>
            (Name c) (Inr \<lparr>ContainerCreateCreatedBody.ID = newID\<rparr>)
          # (if IsHost (NetworkMode (hostConfig c)) then []
             else EvNetworkDisconnect k newID True None
                  # map (\<lambda>(k', v'). EvNetworkConnect k' newID v' None)
                      (range_entries (Networks (NetworkSettings (containerInfo c))) ord2))
          @ [EvContainerStart newID None]
      \<and> distinct (map fst (range_entries (Networks (NetworkSettings (containerInfo c))) ord2))
      \<and> map_of (range_entries (Networks (NetworkSettings (containerInfo c))) ord2) =
          Networks (NetworkSettings (containerInfo c))
      \<and> (\<not> IsHost (NetworkMode (hostConfig c)) \<longrightarrow>
           membership newID (trace w') = Networks (NetworkSettings (containerInfo c)))"
proof -
  let ?nets = "Networks (NetworkSettings (containerInfo c))"
  from oneEndpoint_first[OF ord1 nonempty] obtain k v where
    kv: "?nets k = Some v" and one: "oneEndpoint c ord1 = [(k, v)]" by blast
  then have simple: "simpleNetworkConfig c ord1 = \<lparr>EndpointsConfig = [k \<mapsto> v]\<rparr>"
    by (simp add: simpleNetworkConfig_def)
  have d: "distinct (map fst (range_entries ?nets ord2))"
    using ord2 by (simp add: range_entries_distinct range_order_def)
  have m: "map_of (range_entries ?nets ord2) = ?nets"
    using ord2 by (rule map_of_range_entries)
  from run have "filter is_call (trace w') =
          EvContainerCreate (runtimeConfig c) (hostConfig c) \<lparr>EndpointsConfig = [k \<mapsto> v]\<rparr>
            (Name c) (Inr \<lparr>ContainerCreateCreatedBody.ID = newID\<rparr>)
          # (if IsHost (NetworkMode (hostConfig c)) then []
             else EvNetworkDisconnect k newID True None
                  # map (\<lambda>(k', v'). EvNetworkConnect k' newID v' None) (range_entries ?nets ord2))
          @ [EvContainerStart newID None]
      \<and> (\<not> IsHost (NetworkMode (hostConfig c)) \<longrightarrow> membership newID (trace w') = ?nets)"
  proof (cases rule: StartContainer_cases)
    case (host body res)
    then have "res = None" "ContainerCreateCreatedBody.ID body = newID"
      by (auto split: option.splits)
    with host simple show ?thesis by simp
  next
    case (networked body res)
    then have r: "res = None" "ContainerCreateCreatedBody.ID body = newID"
      by (auto split: option.splits)
    have "membership newID (trace w') = ?nets"
      using networked(3) r one simple fold_attach_connects_all[OF ord2, of newID]
      by (simp add: membership_def)
    with networked r one simple show ?thesis by simp
  qed simp_all
  with kv d m show ?thesis by blast
qed

lemmas start_run_defs = StartContainer_def simpleNetworkConfig_def oneEndpoint_def
  range_entries_def call_def logf_def init_def Let_def IsHost_def
  dockerd_def web_def web_host_def web_no_network_def

text \<open>
  The claim C3 as stated fails for a container that is attached to no network, as one
  that shares the network of another container is: the loop of \<open>simpleNetworkConfig\<close>
  has nothing to visit and the container is created with no entry at all.
\<close>

theorem StartContainer_restores_networks_counterexample:
  "range_order (Networks (NetworkSettings (containerInfo web_no_network))) []
   \<and> dom (EndpointsConfig (simpleNetworkConfig web_no_network [])) = {}
   \<and> filter is_call
        (trace (snd (StartContainer \<lparr>api = dockerd, pullImages = False\<rparr> web_no_network [] [] (init 0)))) =
       [EvContainerCreate (runtimeConfig web_no_network) (hostConfig web_no_network)
          (simpleNetworkConfig web_no_network []) ''web''
          (Inr \<lparr>ContainerCreateCreatedBody.ID = ''c2''\<rparr>),
        EvContainerStart ''c2'' None]"
  by (simp add: start_run_defs range_order_def)

theorem StartContainer_restores_networks_witness:
  "fst (StartContainer \<lparr>api = dockerd, pullImages = False\<rparr> web [''B'', ''A''] [''A'', ''B''] (init 0)) =
     Inr ''c2''
   \<and> filter is_call
        (trace (snd (StartContainer \<lparr>api = dockerd, pullImages = False\<rparr> web
                       [''B'', ''A''] [''A'', ''B''] (init 0)))) =
       [EvContainerCreate (runtimeConfig web) (hostConfig web)
          \<lparr>EndpointsConfig = [''B'' \<mapsto> endpointB]\<rparr> ''web''
          (Inr \<lparr>ContainerCreateCreatedBody.ID = ''c2''\<rparr>),
        EvNetworkDisconnect ''B'' ''c2'' True None,
        EvNetworkConnect ''A'' ''c2'' endpointA None,
        EvNetworkConnect ''B'' ''c2'' endpointB None,
        EvContainerStart ''c2'' None]
   \<and> membership ''c2''
        (trace (snd (StartContainer \<lparr>api = dockerd, pullImages = False\<rparr> web
                       [''B'', ''A''] [''A'', ''B''] (init 0)))) =
       Networks (NetworkSettings (containerInfo web))"
proof -
  let ?run = "StartContainer \<lparr>api = dockerd, pullImages = False\<rparr> web [''B'', ''A''] [''A'', ''B''] (init 0)"
  let ?nets = "Networks (NetworkSettings (containerInfo web))"
  have nonempty: "?nets \<noteq> Map.empty"
    by (simp add: web_def)
  have ord1: "range_order ?nets [''B'', ''A'']"
    by (auto simp: web_def range_order_def)
  have ord2: "range_order ?nets [''A'', ''B'']"
    by (auto simp: web_def range_order_def)
  have res: "fst ?run = Inr ''c2''"
    by (simp add: start_run_defs)
  then have run: "?run = (Inr ''c2'', snd ?run)"
    by (simp add: prod_eq_iff)
  have nohost: "\<not> IsHost (NetworkMode (hostConfig web))"
    by (simp add: web_def IsHost_def)
  have calls: "filter is_call (trace (snd ?run)) =
       [EvContainerCreate (runtimeConfig web) (hostConfig web)
          \<lparr>EndpointsConfig = [''B'' \<mapsto> endpointB]\<rparr> ''web''
          (Inr \<lparr>ContainerCreateCreatedBody.ID = ''c2''\<rparr>),
        EvNetworkDisconnect ''B'' ''c2'' True None,
        EvNetworkConnect ''A'' ''c2'' endpointA None,
        EvNetworkConnect ''B'' ''c2'' endpointB None,
        EvContainerStart ''c2'' None]"
    by (simp add: start_run_defs)
  from StartContainer_restores_networks[OF nonempty ord1 ord2 run] nohost
  have "membership ''c2'' (trace (snd ?run)) = ?nets"
    by blast
  with res calls show ?thesis by simp
qed

theorem StartContainer_host_mode_no_network_calls_witness:
  "fst (StartContainer \<lparr>api = dockerd, pullImages = False\<rparr> web_host [''host''] [''host''] (init 0)) =
     Inr ''c2''
   \<and> filter is_network_call
        (trace (snd (StartContainer \<lparr>api = dockerd, pullImages = False\<rparr> web_host
                       [''host''] [''host''] (init 0)))) = []
   \<and> list_all is_create_or_start
        (filter is_call
          (trace (snd (StartContainer \<lparr>api = dockerd, pullImages = False\<rparr> web_host
                         [''host''] [''host''] (init 0)))))"
proof -
  let ?run = "StartContainer \<lparr>api = dockerd, pullImages = False\<rparr> web_host [''host''] [''host''] (init 0)"
  have host: "IsHost (NetworkMode (hostConfig web_host))"
    by (simp add: web_host_def IsHost_def)
  have res: "fst ?run = Inr ''c2''"
    by (simp add: start_run_defs)
  then have run: "?run = (Inr ''c2'', snd ?run)"
    by (simp add: prod_eq_iff)
  note c7 = StartContainer_host_mode_no_network_calls[OF host run]
  from c7 have "filter is_network_call (trace (snd ?run)) = []"
    by (rule conjunct1)
  moreover from c7 have "list_all is_create_or_start (filter is_call (trace (snd ?run)))"
    by (rule conjunct2[THEN conjunct1])
  ultimately show ?thesis using res by simp
qed

section \<open>Claims about \<open>IsContainerStale\<close>\<close>

lemma inspectAndCompare_cases [consumes 1, case_names inspect_failed compared]:
  assumes run: "inspectAndCompare client c w = (r, w')"
  obtains
    (inspect_failed) e where "r = (False, Some e)"
      "trace w' = trace w @ [EvImageInspectWithRaw (ImageName c) (Inl e)]"
  | (compared) info where
      "r = (ImageInspect.ID info \<noteq> ImageInspect.ID (imageInfo c), None)"
      "trace w' = trace w @ [EvImageInspectWithRaw (ImageName c) (Inr info), compareLog c info]"
proof -
  obtain a w1 where insp: "call (ImageInspectWithRaw (api client) (ImageName c))
                             (EvImageInspectWithRaw (ImageName c)) w = (a, w1)"
    by (cases "call (ImageInspectWithRaw (api client) (ImageName c))
                             (EvImageInspectWithRaw (ImageName c)) w")
  then have t1: "trace w1 = trace w @ [EvImageInspectWithRaw (ImageName c) a]"
    using call_trace by fastforce
  show thesis
  proof (cases a)
    case (Inl e)
    with run insp have "r = (False, Some e)" "w' = w1"
      by (auto simp: inspectAndCompare_def Let_def)
    with t1 Inl show thesis by (intro inspect_failed[of e]) auto
  next
    case (Inr info)
    with run insp have "r = (ImageInspect.ID info \<noteq> ImageInspect.ID (imageInfo c), None)"
      "trace w' = trace w1 @ [compareLog c info]"
      by (auto simp: inspectAndCompare_def Let_def compareLog_def split: if_splits)
    with t1 Inr show thesis by (intro compared[of info]) auto
  qed
qed

lemma IsContainerStale_cases [consumes 1, case_names auth_failed pull_failed inspect_failed compared]:
  assumes run: "IsContainerStale client c w = (r, w')"
  obtains
    (auth_failed) e where "pullImages client" "r = (False, Some e)"
      "trace w' = trace w @
         [Log DebugLevel ''Pulling %s for %s'' [ArgStr (ImageName c), ArgStr (Name c)],
          EvEncodedAuth (ImageName c) (Inl e),
          Log DebugLevel ''Error loading authentication credentials %s'' [ArgErr e]]"
  | (pull_failed) pre opts e where "pullImages client" "r = (False, Some e)"
      "trace w' = trace w @ pre @
         [EvImagePull (ImageName c) opts (Inl e),
          Log DebugLevel ''Error pulling image %s, %s'' [ArgStr (ImageName c), ArgErr e]]"
      "list_all (\<lambda>ev. \<not> is_image_inspect ev \<and> \<not> is_read_all ev) pre"
  | (inspect_failed) pre post e where "r = (False, Some e)"
      "trace w' = trace w @ pre @ [EvImageInspectWithRaw (ImageName c) (Inl e)] @ post"
      "list_all (\<lambda>ev. \<not> is_image_inspect ev) (pre @ post)"
      "pullImages client \<longrightarrow>
         (\<exists>pre' response rd. pre = pre' @ [EvReadAll response rd] \<and> post = [EvClose response ()] \<and>
            list_all (\<lambda>ev. \<not> is_read_all ev) pre')"
      "\<not> pullImages client \<longrightarrow> pre = [] \<and> post = []"
  | (compared) pre post info where
      "r = (ImageInspect.ID info \<noteq> ImageInspect.ID (imageInfo c), None)"
      "trace w' = trace w @ pre @
         [EvImageInspectWithRaw (ImageName c) (Inr info), compareLog c info] @ post"
      "list_all (\<lambda>ev. \<not> is_image_inspect ev) (pre @ post)"
      "pullImages client \<longrightarrow>
         (\<exists>pre' response rd. pre = pre' @ [EvReadAll response rd] \<and> post = [EvClose response ()] \<and>
            list_all (\<lambda>ev. \<not> is_read_all ev) pre')"
      "\<not> pullImages client \<longrightarrow> pre = [] \<and> post = []"
proof (cases "pullImages client")
  case False
  with run have "inspectAndCompare client c w = (r, w')"
    by (simp add: IsContainerStale_def)
  then show thesis
  proof (cases rule: inspectAndCompare_cases)
    case (inspect_failed e)
    with False show ?thesis by (intro that(3)[of e "[]" "[]"]) auto
  next
    case (compared info)
    with False show ?thesis by (intro that(4)[of info "[]" "[]"]) auto
  qed
next
  case True
  let ?w1 = "logf DebugLevel ''Pulling %s for %s'' [ArgStr (ImageName c), ArgStr (Name c)] w"
  obtain a w2 where auth: "call (EncodedAuth (api client) (ImageName c))
                             (EvEncodedAuth (ImageName c)) ?w1 = (a, w2)"
    by (cases "call (EncodedAuth (api client) (ImageName c)) (EvEncodedAuth (ImageName c)) ?w1")
  then have t2: "trace w2 = trace w @
         [Log DebugLevel ''Pulling %s for %s'' [ArgStr (ImageName c), ArgStr (Name c)],
          EvEncodedAuth (ImageName c) a]"
    by (auto dest!: call_trace)
  show thesis
  proof (cases a)
    case (Inl e)
    with run True auth have "r = (False, Some e)"
      "trace w' = trace w2 @
         [Log DebugLevel ''Error loading authentication credentials %s'' [ArgErr e]]"
      by (auto simp: IsContainerStale_def Let_def)
    with t2 Inl True show thesis by (intro auth_failed[of e]) auto
  next
    case (Inr au)
    define opts where "opts = (if au = [] then \<lparr>RegistryAuth = [], PrivilegeFunc = None\<rparr>
                          else \<lparr>RegistryAuth = au, PrivilegeFunc = Some DefaultAuthHandler\<rparr>)"
    define w3 where "w3 = (if au = [] then
                          logf DebugLevel ''No authentication credentials found for %s''
                            [ArgStr (ImageName c)] w2
                        else w2)"
    define pre where "pre =
         [Log DebugLevel ''Pulling %s for %s'' [ArgStr (ImageName c), ArgStr (Name c)],
          EvEncodedAuth (ImageName c) (Inr au)] @
         (if au = [] then [Log DebugLevel ''No authentication credentials found for %s''
                            [ArgStr (ImageName c)]] else [])"
    have t3: "trace w3 = trace w @ pre"
      using t2 Inr by (simp add: w3_def pre_def)
    have pre_ok: "list_all (\<lambda>ev. \<not> is_image_inspect ev \<and> \<not> is_read_all ev) pre"
      by (simp add: pre_def)
    obtain p w4 where pull: "call (ImagePull (api client) (ImageName c) opts)
                               (EvImagePull (ImageName c) opts) w3 = (p, w4)"
      by (cases "call (ImagePull (api client) (ImageName c) opts)
                   (EvImagePull (ImageName c) opts) w3")
    then have t4: "trace w4 = trace w @ pre @ [EvImagePull (ImageName c) opts p]"
      using t3 by (auto dest!: call_trace)
    show thesis
    proof (cases p)
      case (Inl e)
      with run True auth Inr pull have "r = (False, Some e)"
        "trace w' = trace w4 @
           [Log DebugLevel ''Error pulling image %s, %s'' [ArgStr (ImageName c), ArgErr e]]"
        by (auto simp: IsContainerStale_def Let_def opts_def w3_def)
      with t4 Inl True pre_ok show thesis by (intro pull_failed[of e pre opts]) auto
    next
      case response: (Inr response)
      obtain rd w5 where rd: "call (ReadAll (api client) response) (EvReadAll response) w4 = (rd, w5)"
        by (cases "call (ReadAll (api client) response) (EvReadAll response) w4")
      then have t5: "trace w5 = trace w @ (pre @ [EvImagePull (ImageName c) opts (Inr response)])
                        @ [EvReadAll response rd]"
        using t4 response by (auto dest!: call_trace)
      obtain r6 w6 where cmp: "inspectAndCompare client c w5 = (r6, w6)"
        by (cases "inspectAndCompare client c w5")
      obtain u w7 where cl: "call (Close (api client) response) (EvClose response) w6 = (u, w7)"
        by (cases "call (Close (api client) response) (EvClose response) w6")
      then have t7: "trace w7 = trace w6 @ [EvClose response ()]"
        by (auto dest!: call_trace)
      from run True auth Inr pull response rd cmp cl have res: "r = r6" "w' = w7"
        by (auto simp: IsContainerStale_def Let_def opts_def w3_def)
      have pre_ok': "list_all (\<lambda>ev. \<not> is_image_inspect ev)
               ((pre @ [EvImagePull (ImageName c) opts (Inr response)] @ [EvReadAll response rd])
                  @ [EvClose response ()])"
        "list_all (\<lambda>ev. \<not> is_read_all ev) (pre @ [EvImagePull (ImageName c) opts (Inr response)])"
        by (simp_all add: pre_def)
      from cmp show thesis
      proof (cases rule: inspectAndCompare_cases)
        case (inspect_failed e)
        with res t5 t7 pre_ok' True show ?thesis
          by (intro that(3)[of e "pre @ [EvImagePull (ImageName c) opts (Inr response)]
                                    @ [EvReadAll response rd]" "[EvClose response ()]"])
             auto
      next
        case (compared info)
        with res t5 t7 pre_ok' True show ?thesis
          by (intro that(4)[of info "pre @ [EvImagePull (ImageName c) opts (Inr response)]
                                    @ [EvReadAll response rd]" "[EvClose response ()]"])
             auto
      qed
    qed
  qed
qed


lemma compareLog_not_inspect [simp]:
  "\<not> is_image_inspect (compareLog c info)" "\<not> is_read_all (compareLog c info)"
  "compareLog c info \<noteq> EvImageInspectWithRaw a b" "EvImageInspectWithRaw a b \<noteq> compareLog c info"
  "compareLog c info \<noteq> EvReadAll x y" "EvReadAll x y \<noteq> compareLog c info"
  by (simp_all add: compareLog_def)

lemma no_image_inspect_mem:
  "list_all (\<lambda>ev. \<not> is_image_inspect ev) evs \<Longrightarrow> EvImageInspectWithRaw a b \<notin> set evs"
  by (auto simp: list_all_iff)

lemma no_image_inspect_mem2:
  "list_all (\<lambda>ev. \<not> is_image_inspect ev \<and> \<not> is_read_all ev) evs \<Longrightarrow>
     EvImageInspectWithRaw a b \<notin> set evs \<and> EvReadAll x y \<notin> set evs"
  by (auto simp: list_all_iff)

lemma no_read_all_mem:
  "list_all (\<lambda>ev. \<not> is_read_all ev) evs \<Longrightarrow> EvReadAll x y \<notin> set evs"
  by (auto simp: list_all_iff)

lemma IsContainerStale_when_inspected:
  assumes run: "IsContainerStale client c (init s) = (r, w')"
    and seen: "EvImageInspectWithRaw (ImageName c) (Inr info) \<in> set (trace w')"
  shows "r = (ImageInspect.ID info \<noteq> ImageInspect.ID (imageInfo c), None)"
  using run
proof (cases rule: IsContainerStale_cases)
  case (auth_failed e)
  with seen show ?thesis by auto
next
  case (pull_failed pre opts e)
  with seen show ?thesis by (auto dest: no_image_inspect_mem2)
next
  case (inspect_failed pre post e)
  with seen show ?thesis by (auto dest: no_image_inspect_mem)
next
  case (compared pre post info')
  with seen have "info = info'" by (auto dest: no_image_inspect_mem)
  with compared show ?thesis by simp
qed

lemma IsContainerStale_nil_inspected:
  assumes run: "IsContainerStale client c (init s) = ((stale, None), w')"
  shows "\<exists>info. EvImageInspectWithRaw (ImageName c) (Inr info) \<in> set (trace w')"
  using run
  by (cases rule: IsContainerStale_cases) auto

text \<open>
  C1. Whatever the client, with pulling enabled or disabled: when the image reference is
  inspected and the inspection answers, the result of \<open>IsContainerStale\<close> is \<open>(true, nil)\<close>
  if the id it answers differs from the id in the snapshot's \<open>imageInfo\<close>, and
  \<open>(false, nil)\<close> if the two are equal; and these two results occur in no other way.
  A run with pulling and a run without it, on any two daemons, that inspect the same image
  id return the same result.
\<close>

theorem IsContainerStale_compares_image_ids:
  assumes run: "IsContainerStale (client :: 's dockerClient) c (init s) = ((stale, err), w')"
  shows "(\<forall>info. EvImageInspectWithRaw (ImageName c) (Inr info) \<in> set (trace w') \<longrightarrow>
            (stale, err) = (ImageInspect.ID info \<noteq> ImageInspect.ID (imageInfo c), None))
       \<and> ((stale, err) = (True, None) \<longleftrightarrow>
            (\<exists>info. EvImageInspectWithRaw (ImageName c) (Inr info) \<in> set (trace w') \<and>
                    ImageInspect.ID info \<noteq> ImageInspect.ID (imageInfo c)))
       \<and> ((stale, err) = (False, None) \<longleftrightarrow>
            (\<exists>info. EvImageInspectWithRaw (ImageName c) (Inr info) \<in> set (trace w') \<and>
                    ImageInspect.ID info = ImageInspect.ID (imageInfo c)))
       \<and> (\<forall>(client2 :: 't dockerClient) s2 stale2 err2 w2 info info2.
            IsContainerStale client2 c (init s2) = ((stale2, err2), w2) \<and>
            pullImages client2 \<noteq> pullImages client \<and>
            EvImageInspectWithRaw (ImageName c) (Inr info) \<in> set (trace w') \<and>
            EvImageInspectWithRaw (ImageName c) (Inr info2) \<in> set (trace w2) \<and>
            ImageInspect.ID info2 = ImageInspect.ID info \<longrightarrow>
            (stale2, err2) = (stale, err))"
proof (intro conjI allI impI; (elim conjE)?)
  fix info
  assume "EvImageInspectWithRaw (ImageName c) (Inr info) \<in> set (trace w')"
  with run show "(stale, err) = (ImageInspect.ID info \<noteq> ImageInspect.ID (imageInfo c), None)"
    by (rule IsContainerStale_when_inspected)
next
  show "(stale, err) = (True, None) \<longleftrightarrow>
            (\<exists>info. EvImageInspectWithRaw (ImageName c) (Inr info) \<in> set (trace w') \<and>
                    ImageInspect.ID info \<noteq> ImageInspect.ID (imageInfo c))"
  proof
    assume r: "(stale, err) = (True, None)"
    with run have "IsContainerStale client c (init s) = ((stale, None), w')" by simp
    from IsContainerStale_nil_inspected[OF this] obtain info where
      seen: "EvImageInspectWithRaw (ImageName c) (Inr info) \<in> set (trace w')" by blast
    from IsContainerStale_when_inspected[OF run seen] r
    have "ImageInspect.ID info \<noteq> ImageInspect.ID (imageInfo c)" by simp
    with seen show "\<exists>info. EvImageInspectWithRaw (ImageName c) (Inr info) \<in> set (trace w') \<and>
                    ImageInspect.ID info \<noteq> ImageInspect.ID (imageInfo c)" by blast
  next
    assume "\<exists>info. EvImageInspectWithRaw (ImageName c) (Inr info) \<in> set (trace w') \<and>
                    ImageInspect.ID info \<noteq> ImageInspect.ID (imageInfo c)"
    then obtain info where
      seen: "EvImageInspectWithRaw (ImageName c) (Inr info) \<in> set (trace w')"
      and "ImageInspect.ID info \<noteq> ImageInspect.ID (imageInfo c)" by blast
    with IsContainerStale_when_inspected[OF run seen]
    show "(stale, err) = (True, None)" by simp
  qed
next
  show "(stale, err) = (False, None) \<longleftrightarrow>
            (\<exists>info. EvImageInspectWithRaw (ImageName c) (Inr info) \<in> set (trace w') \<and>
                    ImageInspect.ID info = ImageInspect.ID (imageInfo c))"
  proof
    assume r: "(stale, err) = (False, None)"
    with run have "IsContainerStale client c (init s) = ((stale, None), w')" by simp
    from IsContainerStale_nil_inspected[OF this] obtain info where
      seen: "EvImageInspectWithRaw (ImageName c) (Inr info) \<in> set (trace w')" by blast
    from IsContainerStale_when_inspected[OF run seen] r
    have "ImageInspect.ID info = ImageInspect.ID (imageInfo c)" by simp
    with seen show "\<exists>info. EvImageInspectWithRaw (ImageName c) (Inr info) \<in> set (trace w') \<and>
                    ImageInspect.ID info = ImageInspect.ID (imageInfo c)" by blast
  next
    assume "\<exists>info. EvImageInspectWithRaw (ImageName c) (Inr info) \<in> set (trace w') \<and>
                    ImageInspect.ID info = ImageInspect.ID (imageInfo c)"
    then obtain info where
      seen: "EvImageInspectWithRaw (ImageName c) (Inr info) \<in> set (trace w')"
      and "ImageInspect.ID info = ImageInspect.ID (imageInfo c)" by blast
    with IsContainerStale_when_inspected[OF run seen]
    show "(stale, err) = (False, None)" by simp
  qed
next
  fix client2 :: "'t dockerClient" and s2 stale2 err2 w2 info info2
  assume run2: "IsContainerStale client2 c (init s2) = ((stale2, err2), w2)"
    and seen: "EvImageInspectWithRaw (ImageName c) (Inr info) \<in> set (trace w')"
    and seen2: "EvImageInspectWithRaw (ImageName c) (Inr info2) \<in> set (trace w2)"
    and same: "ImageInspect.ID info2 = ImageInspect.ID info"
  from IsContainerStale_when_inspected[OF run seen]
       IsContainerStale_when_inspected[OF run2 seen2] same
  show "(stale2, err2) = (stale, err)" by simp
qed

text \<open>
  C9. With pulling enabled, when the credential lookup for the container's image reference
  fails with \<open>e\<close>, \<open>IsContainerStale\<close> returns \<open>(false, e)\<close>, and has neither pulled nor
  inspected the image: after the lookup it only writes a log entry.
\<close>
theorem IsContainerStale_auth_failure:
  assumes pull: "pullImages client"
    and auth: "EncodedAuth (api client) (ImageName c) s = (Inl e, s')"
  shows "IsContainerStale client c (init s) =
           ((False, Some e),
            \<lparr>daemon = s',
             trace = [Log DebugLevel ''Pulling %s for %s'' [ArgStr (ImageName c), ArgStr (Name c)],
                      EvEncodedAuth (ImageName c) (Inl e),
                      Log DebugLevel ''Error loading authentication credentials %s''
                        [ArgErr e]]\<rparr>)"
  using pull auth
  by (simp add: IsContainerStale_def Let_def call_def logf_def init_def)

text \<open>
  C10. When reading the response stream of the pull ends with an error, \<open>IsContainerStale\<close>
  goes on to inspect the image reference, and its result is the error of that inspection,
  or else the comparison of the inspected id with the snapshot's; the error of the read
  is not part of the result.
\<close>
theorem IsContainerStale_ignores_drain_error:
  assumes run: "IsContainerStale client c (init s) = ((stale, err), w')"
    and drain: "EvReadAll response (bytes, Some drainErr) \<in> set (trace w')"
  shows "(\<exists>pre e. (stale, err) = (False, Some e) \<and>
            trace w' = pre @ [EvReadAll response (bytes, Some drainErr),
                              EvImageInspectWithRaw (ImageName c) (Inl e),
                              EvClose response ()])
       \<or> (\<exists>pre info.
            (stale, err) = (ImageInspect.ID info \<noteq> ImageInspect.ID (imageInfo c), None) \<and>
            trace w' = pre @ [EvReadAll response (bytes, Some drainErr),
                              EvImageInspectWithRaw (ImageName c) (Inr info),
                              compareLog c info,
                              EvClose response ()])"
  using run
proof (cases rule: IsContainerStale_cases)
  case (auth_failed e)
  with drain show ?thesis by auto
next
  case (pull_failed pre opts e)
  with drain show ?thesis by (auto dest: no_image_inspect_mem2)
next
  case (inspect_failed pre post e)
  show ?thesis
  proof (cases "pullImages client")
    case False
    with inspect_failed drain show ?thesis by auto
  next
    case True
    with inspect_failed obtain pre' response' rd where
      p: "pre = pre' @ [EvReadAll response' rd]" "post = [EvClose response' ()]"
         "list_all (\<lambda>ev. \<not> is_read_all ev) pre'" by blast
    with inspect_failed(2) drain have "response' = response" "rd = (bytes, Some drainErr)"
      by (auto dest: no_read_all_mem)
    with inspect_failed p show ?thesis
      by (intro disjI1 exI[of _ pre'] exI[of _ e]) simp
  qed
next
  case (compared pre post info)
  show ?thesis
  proof (cases "pullImages client")
    case False
    with compared drain show ?thesis by auto
  next
    case True
    with compared obtain pre' response' rd where
      p: "pre = pre' @ [EvReadAll response' rd]" "post = [EvClose response' ()]"
         "list_all (\<lambda>ev. \<not> is_read_all ev) pre'" by blast
    with compared(2) drain have "response' = response" "rd = (bytes, Some drainErr)"
      by (auto dest: no_read_all_mem)
    with compared p show ?thesis
      by (intro disjI2 exI[of _ pre'] exI[of _ info]) simp
  qed
qed

lemmas stale_run_defs = IsContainerStale_def inspectAndCompare_def call_def logf_def init_def
  Let_def dockerd_def dockerd_no_auth_def dockerd_broken_stream_def web_def web_fresh_def

theorem IsContainerStale_compares_image_ids_witness:
  "fst (IsContainerStale \<lparr>api = dockerd, pullImages = True\<rparr> web (init 0)) = (True, None)
   \<and> EvImageInspectWithRaw ''web:latest'' (Inr \<lparr>ImageInspect.ID = ''sha256:bbb'', RepoDigests = []\<rparr>)
       \<in> set (trace (snd (IsContainerStale \<lparr>api = dockerd, pullImages = True\<rparr> web (init 0))))
   \<and> fst (IsContainerStale \<lparr>api = dockerd, pullImages = False\<rparr> web (init 0)) = (True, None)
   \<and> EvImageInspectWithRaw ''web:latest'' (Inr \<lparr>ImageInspect.ID = ''sha256:bbb'', RepoDigests = []\<rparr>)
       \<in> set (trace (snd (IsContainerStale \<lparr>api = dockerd, pullImages = False\<rparr> web (init 0))))
   \<and> fst (IsContainerStale \<lparr>api = dockerd, pullImages = False\<rparr> web_fresh (init 0)) = (False, None)
   \<and> EvImageInspectWithRaw ''web:latest'' (Inr \<lparr>ImageInspect.ID = ''sha256:bbb'', RepoDigests = []\<rparr>)
       \<in> set (trace (snd (IsContainerStale \<lparr>api = dockerd, pullImages = False\<rparr> web_fresh (init 0))))"
proof -
  let ?run1 = "IsContainerStale \<lparr>api = dockerd, pullImages = True\<rparr> web (init 0)"
  let ?run2 = "IsContainerStale \<lparr>api = dockerd, pullImages = False\<rparr> web (init 0)"
  let ?run3 = "IsContainerStale \<lparr>api = dockerd, pullImages = False\<rparr> web_fresh (init 0)"
  let ?info = "\<lparr>ImageInspect.ID = ''sha256:bbb'', RepoDigests = []\<rparr>"
  have run1: "?run1 = ((fst (fst ?run1), snd (fst ?run1)), snd ?run1)"
    and run2: "?run2 = ((fst (fst ?run2), snd (fst ?run2)), snd ?run2)"
    and run3: "?run3 = ((fst (fst ?run3), snd (fst ?run3)), snd ?run3)"
    by simp_all
  have seen1: "EvImageInspectWithRaw (ImageName web) (Inr ?info) \<in> set (trace (snd ?run1))"
    by (simp add: stale_run_defs)
  have seen2: "EvImageInspectWithRaw (ImageName web) (Inr ?info) \<in> set (trace (snd ?run2))"
    by (simp add: stale_run_defs)
  have seen3: "EvImageInspectWithRaw (ImageName web_fresh) (Inr ?info) \<in> set (trace (snd ?run3))"
    by (simp add: stale_run_defs)
  have other: "pullImages \<lparr>api = dockerd, pullImages = False\<rparr> \<noteq>
               pullImages \<lparr>api = dockerd, pullImages = True\<rparr>"
    by simp
  note c1 = IsContainerStale_compares_image_ids
  note r1 = c1[OF run1, THEN conjunct1, rule_format, OF seen1]
  note r3 = c1[OF run3, THEN conjunct1, rule_format, OF seen3]
  note r2 = c1[OF run1, THEN conjunct2, THEN conjunct2, THEN conjunct2, rule_format,
               of "\<lparr>api = dockerd, pullImages = False\<rparr>" 0 "fst (fst ?run2)" "snd (fst ?run2)"
                  "snd ?run2" ?info ?info]
  from r1 have a: "fst ?run1 = (True, None)"
    by (simp add: web_def)
  from r2 run2 other seen1 seen2 have "fst ?run2 = fst ?run1"
    by (simp add: prod_eq_iff)
  with a have b: "fst ?run2 = (True, None)" by simp
  from r3 have c: "fst ?run3 = (False, None)"
    by (simp add: web_def web_fresh_def)
  from seen1 seen2 seen3 a b c show ?thesis
    by (simp add: web_def web_fresh_def)
qed

theorem IsContainerStale_auth_failure_witness:
  "IsContainerStale \<lparr>api = dockerd_no_auth, pullImages = True\<rparr> web (init 0) =
     ((False, Some (ErrDaemon ''bad credentials'')),
      \<lparr>daemon = 0,
       trace = [Log DebugLevel ''Pulling %s for %s'' [ArgStr ''web:latest'', ArgStr ''web''],
                EvEncodedAuth ''web:latest'' (Inl (ErrDaemon ''bad credentials'')),
                Log DebugLevel ''Error loading authentication credentials %s''
                  [ArgErr (ErrDaemon ''bad credentials'')]]\<rparr>)"
proof -
  have pull: "pullImages \<lparr>api = dockerd_no_auth, pullImages = True\<rparr>"
    by simp
  have auth: "EncodedAuth (api \<lparr>api = dockerd_no_auth, pullImages = True\<rparr>) (ImageName web) (0::nat) =
                (Inl (ErrDaemon ''bad credentials''), 0)"
    by (simp add: dockerd_no_auth_def dockerd_def)
  from IsContainerStale_auth_failure[OF pull auth] show ?thesis
    by (simp add: web_def)
qed

theorem IsContainerStale_ignores_drain_error_witness:
  "fst (IsContainerStale \<lparr>api = dockerd_broken_stream, pullImages = True\<rparr> web (init 0)) = (True, None)
   \<and> EvReadAll (ReadCloser 0) ([], Some (ErrDaemon ''unexpected EOF''))
       \<in> set (trace (snd (IsContainerStale \<lparr>api = dockerd_broken_stream, pullImages = True\<rparr> web (init 0))))
   \<and> EvImageInspectWithRaw ''web:latest'' (Inr \<lparr>ImageInspect.ID = ''sha256:bbb'', RepoDigests = []\<rparr>)
       \<in> set (trace (snd (IsContainerStale \<lparr>api = dockerd_broken_stream, pullImages = True\<rparr> web (init 0))))"
proof -
  let ?run = "IsContainerStale \<lparr>api = dockerd_broken_stream, pullImages = True\<rparr> web (init 0)"
  have run: "?run = ((fst (fst ?run), snd (fst ?run)), snd ?run)"
    by simp
  have drain: "EvReadAll (ReadCloser 0) ([], Some (ErrDaemon ''unexpected EOF''))
                 \<in> set (trace (snd ?run))"
    by (simp add: stale_run_defs)
  have seen: "EvImageInspectWithRaw ''web:latest'' (Inr \<lparr>ImageInspect.ID = ''sha256:bbb'', RepoDigests = []\<rparr>)
       \<in> set (trace (snd ?run))"
    by (simp add: stale_run_defs)
  have res: "fst ?run = (True, None)"
    by (simp add: stale_run_defs)
  from IsContainerStale_ignores_drain_error[OF run drain]
  have "(\<exists>pre e. (fst (fst ?run), snd (fst ?run)) = (False, Some e) \<and>
            trace (snd ?run) = pre @ [EvReadAll (ReadCloser 0) ([], Some (ErrDaemon ''unexpected EOF'')),
                              EvImageInspectWithRaw (ImageName web) (Inl e),
                              EvClose (ReadCloser 0) ()])
       \<or> (\<exists>pre info.
            (fst (fst ?run), snd (fst ?run)) =
               (ImageInspect.ID info \<noteq> ImageInspect.ID (imageInfo web), None) \<and>
            trace (snd ?run) = pre @ [EvReadAll (ReadCloser 0) ([], Some (ErrDaemon ''unexpected EOF'')),
                              EvImageInspectWithRaw (ImageName web) (Inr info),
                              compareLog web info,
                              EvClose (ReadCloser 0) ()])" .
  with res drain seen show ?thesis by simp
qed

section \<open>Claims about \<open>ExecuteCommand\<close>\<close>

lemmas exec_run_defs = ExecuteCommand_def call_def logf_def init_def Let_def
  dockerd_negative_exit_def dockerd_def TrimSpaceASCII_def ascii_space_def

text \<open>
  C5. The claim is that a nonzero exit code is reported at error level with the captured
  output, and the comment in the code says the same ("print a message if the exit code
  is not success"). The code tests \<open>ExitCode > 0\<close>. On a daemon that reports the exit
  code \<open>-1\<close> for the exec session, \<open>ExecuteCommand\<close> returns \<open>nil\<close>, as claimed, but its
  trace holds no entry at error level: the output is logged at info level as for a
  command that succeeded.
\<close>
theorem ExecuteCommand_negative_exit_code:
  "ExecuteCommand TrimSpaceASCII \<lparr>api = dockerd_negative_exit, pullImages = False\<rparr>
     ''c1'' ''exit -1'' (init 0) =
     (None,
      \<lparr>daemon = 0,
       trace =
         [EvContainerExecCreate ''c1''
            \<lparr>ExecConfig.Tty = True, AttachStderr = True, AttachStdout = True,
             ExecConfig.Detach = False, ExecConfig.Cmd = [''sh'', ''-c'', ''exit -1'']\<rparr>
            (Inr \<lparr>IDResponse.ID = ''e1''\<rparr>),
          EvContainerExecAttach ''e1''
            \<lparr>ExecConfig.Tty = True, AttachStderr = True, AttachStdout = True,
             ExecConfig.Detach = False, ExecConfig.Cmd = []\<rparr>
            (Inr (HijackedResponse 0)),
          EvContainerExecStart ''e1''
            \<lparr>ExecStartCheck.Detach = False, ExecStartCheck.Tty = True\<rparr> None,
          EvReadFrom (HijackedResponse 0) ('' boom '', None),
          EvContainerExecInspect ''e1'' (Inr \<lparr>ExitCode = - 1\<rparr>),
          Log InfoLevel (''Command output:'' @ [CHR 0x0A] @ ''%v'') [ArgStr ''boom''],
          EvCloseHijacked (HijackedResponse 0) ()]\<rparr>)"
  by (simp add: exec_run_defs)

text \<open>
  The rest of the claim holds for every daemon: once the exec session has been inspected
  the result is \<open>nil\<close> whatever the exit code, a positive exit code is logged at error
  level, and an error is returned only for a failed create, start or inspect.
\<close>

lemma trace_snd_call [simp]: "trace (snd (call f ev w)) = trace w @ [ev (fst (call f ev w))]"
  by (simp add: call_def split: prod.splits)

lemma ExecuteCommand_after_inspect:
  assumes run: "ExecuteCommand TrimSpace client containerID command (init s) = (r, w')"
    and seen: "EvContainerExecInspect eid (Inr x) \<in> set (trace w')"
  shows "r = None \<and>
         (0 < ExitCode x \<longrightarrow>
            Log ErrorLevel ''Command exited with code %v.'' [ArgInt (ExitCode x)] \<in> set (trace w'))"
  using run seen
  by (auto simp: ExecuteCommand_def Let_def dest!: call_trace
           split: sum.splits option.splits prod.splits if_splits)


lemma ExecuteCommand_error_return:
  assumes run: "ExecuteCommand TrimSpace client containerID command (init s) = (Some e, w')"
  shows "(\<exists>cfg. EvContainerExecCreate containerID cfg (Inl e) \<in> set (trace w'))
       \<or> (\<exists>eid chk. EvContainerExecStart eid chk (Some e) \<in> set (trace w'))
       \<or> (\<exists>eid. EvContainerExecInspect eid (Inl e) \<in> set (trace w'))"
  using run
  by (auto simp: ExecuteCommand_def Let_def dest!: call_trace
           split: sum.splits option.splits prod.splits if_splits)

end
